theory Spec2Isabelle
  imports Complex_Main "HOL-Library.Word"
begin

section \<open>The GL surface factory (ui/gfx/gl/gl\_surface\_mac.cc)\<close>

text \<open>
  The enumerators the file names, and one constructor for every other value of the enum
  (the \<open>default:\<close> branches).
\<close>

datatype GLImplementation =
    kGLImplementationDesktopGL
  | kGLImplementationOSMesaGL
  | kGLImplementationMockGL
  | kGLImplementationOther nat

datatype osmesa_format = OSMESA_RGBA

type_synonym gfx_Size = "int \<times> int"

text \<open>
  The GL driver is outside the file: its calls are parameters. Each takes the driver's
  state \<open>'p\<close> and returns its answer and the driver's new state.
\<close>

record 'p gl_platform =
  InitializeRequestedGLBindings ::
    "GLImplementation list \<Rightarrow> GLImplementation \<Rightarrow> 'p \<Rightarrow> bool \<times> 'p"
  GetGLImplementation :: "'p \<Rightarrow> GLImplementation"
  GLSurfaceCGL_InitializeOneOff :: "'p \<Rightarrow> bool \<times> 'p"
  GLSurfaceOSMesa_Initialize :: "osmesa_format \<Rightarrow> gfx_Size \<Rightarrow> 'p \<Rightarrow> bool \<times> 'p"
  PbufferGLSurfaceCGL_Initialize :: "gfx_Size \<Rightarrow> 'p \<Rightarrow> bool \<times> 'p"

text \<open>What the process did, in order (the most recent event last).\<close>

datatype gl_event =
    Called_InitializeRequestedGLBindings
  | Called_GetGLImplementation
  | Called_GLSurfaceCGL_InitializeOneOff
  | Called_GLSurfaceOSMesa_Initialize
  | Called_PbufferGLSurfaceCGL_Initialize
  | Logged_ERROR string

text \<open>
  The state of the process: the function-local \<open>static bool initialized\<close>, the
  driver, and the events so far.
\<close>

record 'p gl_process =
  initialized :: bool
  platform :: 'p
  gl_trace :: "gl_event list"

definition gl_note :: "gl_event \<Rightarrow> 'p gl_process \<Rightarrow> 'p gl_process" where
  "gl_note e s = s\<lparr>gl_trace := gl_trace s @ [e]\<rparr>"

definition gl_call ::
  "gl_event \<Rightarrow> ('p \<Rightarrow> bool \<times> 'p) \<Rightarrow> 'p gl_process \<Rightarrow> bool \<times> 'p gl_process" where
  "gl_call e f s =
     (case f (platform s) of (r, p) \<Rightarrow> (r, gl_note e (s\<lparr>platform := p\<rparr>)))"

definition kAllowedGLImplementations :: "GLImplementation list" where
  "kAllowedGLImplementations = [kGLImplementationDesktopGL, kGLImplementationOSMesaGL]"

definition InitializeOneOff :: "'p gl_platform \<Rightarrow> 'p gl_process \<Rightarrow> bool \<times> 'p gl_process" where
  "InitializeOneOff P s =
     (if initialized s then (True, s)
      else
        (case gl_call Called_InitializeRequestedGLBindings
                (InitializeRequestedGLBindings P kAllowedGLImplementations
                   kGLImplementationDesktopGL) s of
           (False, s1) \<Rightarrow>
             (False, gl_note (Logged_ERROR ''InitializeRequestedGLBindings failed.'') s1)
         | (True, s1) \<Rightarrow>
             (case GetGLImplementation P (platform s1) of
                kGLImplementationDesktopGL \<Rightarrow>
                  (case gl_call Called_GLSurfaceCGL_InitializeOneOff
                          (GLSurfaceCGL_InitializeOneOff P)
                          (gl_note Called_GetGLImplementation s1) of
                     (False, s2) \<Rightarrow>
                       (False,
                        gl_note (Logged_ERROR ''GLSurfaceCGL::InitializeOneOff failed.'') s2)
                   | (True, s2) \<Rightarrow> (True, s2\<lparr>initialized := True\<rparr>))
              | _ \<Rightarrow>
                  (True, (gl_note Called_GetGLImplementation s1)\<lparr>initialized := True\<rparr>))))"

text \<open>\<open>n\<close> calls one after the other: what each returned, and the state at the end.\<close>

fun InitializeOneOff_times ::
  "'p gl_platform \<Rightarrow> nat \<Rightarrow> 'p gl_process \<Rightarrow> bool list \<times> 'p gl_process" where
  "InitializeOneOff_times P 0 s = ([], s)"
| "InitializeOneOff_times P (Suc n) s =
     (case InitializeOneOff P s of
        (r, s1) \<Rightarrow> (case InitializeOneOff_times P n s1 of (rs, s2) \<Rightarrow> (r # rs, s2)))"

text \<open>
  The same calls, each marked with whether it returned true after having called the
  driver (its trace grew): a call that initialised.
\<close>

fun InitializeOneOff_inits ::
  "'p gl_platform \<Rightarrow> nat \<Rightarrow> 'p gl_process \<Rightarrow> bool list" where
  "InitializeOneOff_inits P 0 s = []"
| "InitializeOneOff_inits P (Suc n) s =
     (case InitializeOneOff P s of
        (r, s1) \<Rightarrow>
          (r \<and> length (gl_trace s) < length (gl_trace s1)) # InitializeOneOff_inits P n s1)"

text \<open>
  The surfaces the factory makes. \<open>NOTREACHED()\<close> stops a build with DCHECKs on and
  does nothing in a build without them.
\<close>

datatype GLSurface =
    GLSurfaceOSMesa osmesa_format gfx_Size
  | PbufferGLSurfaceCGL gfx_Size
  | GLSurfaceStub

datatype gl_failure = NOTREACHED_hit

definition CreateOffscreenGLSurface ::
  "'p gl_platform \<Rightarrow> bool \<Rightarrow> bool \<Rightarrow> gfx_Size \<Rightarrow> 'p gl_process
     \<Rightarrow> gl_failure + (GLSurface option \<times> 'p gl_process)" where
  "CreateOffscreenGLSurface P dcheck_is_on software sz s =
     (if software then Inr (None, s)
      else
        (case GetGLImplementation P (platform s) of
           kGLImplementationOSMesaGL \<Rightarrow>
             (case gl_call Called_GLSurfaceOSMesa_Initialize
                     (GLSurfaceOSMesa_Initialize P OSMESA_RGBA sz)
                     (gl_note Called_GetGLImplementation s) of
                (False, s1) \<Rightarrow> Inr (None, s1)
              | (True, s1) \<Rightarrow> Inr (Some (GLSurfaceOSMesa OSMESA_RGBA sz), s1))
         | kGLImplementationDesktopGL \<Rightarrow>
             (case gl_call Called_PbufferGLSurfaceCGL_Initialize
                     (PbufferGLSurfaceCGL_Initialize P sz)
                     (gl_note Called_GetGLImplementation s) of
                (False, s1) \<Rightarrow> Inr (None, s1)
              | (True, s1) \<Rightarrow> Inr (Some (PbufferGLSurfaceCGL sz), s1))
         | kGLImplementationMockGL \<Rightarrow>
             Inr (Some GLSurfaceStub, gl_note Called_GetGLImplementation s)
         | kGLImplementationOther k \<Rightarrow>
             (if dcheck_is_on then Inl NOTREACHED_hit
              else Inr (None, gl_note Called_GetGLImplementation s))))"

definition CreateViewGLSurface ::
  "'p gl_platform \<Rightarrow> bool \<Rightarrow> bool \<Rightarrow> 'w \<Rightarrow> 'p gl_process
     \<Rightarrow> gl_failure + (GLSurface option \<times> 'p gl_process)" where
  "CreateViewGLSurface P dcheck_is_on software window s =
     CreateOffscreenGLSurface P dcheck_is_on software (1, 1) s"

text \<open>A driver for the examples: every call succeeds, and it counts its calls.\<close>

definition gl_ok_platform :: "GLImplementation \<Rightarrow> nat gl_platform" where
  "gl_ok_platform impl =
     \<lparr> InitializeRequestedGLBindings = (\<lambda>allowed dflt p. (True, Suc p)),
       GetGLImplementation = (\<lambda>p. impl),
       GLSurfaceCGL_InitializeOneOff = (\<lambda>p. (True, Suc p)),
       GLSurfaceOSMesa_Initialize = (\<lambda>fmt sz p. (True, Suc p)),
       PbufferGLSurfaceCGL_Initialize = (\<lambda>sz p. (True, Suc p)) \<rparr>"

text \<open>A driver on which the platform surface initialisation fails.\<close>

definition gl_cgl_fails_platform :: "nat gl_platform" where
  "gl_cgl_fails_platform =
     (gl_ok_platform kGLImplementationDesktopGL)
       \<lparr>GLSurfaceCGL_InitializeOneOff := (\<lambda>p. (False, Suc p))\<rparr>"

definition gl_fresh :: "nat gl_process" where
  "gl_fresh = \<lparr> initialized = False, platform = 0, gl_trace = [] \<rparr>"

section \<open>The bitmap platform device (skia/ext/bitmap\_platform\_device\_mac.cc)\<close>

text \<open>
  Pointers are addresses, \<open>None\<close> is NULL. CoreGraphics and Skia are outside the
  file: the world below records the contexts that are alive with their retain counts, the
  next free address, and every call made (the most recent last). Whether an allocation
  succeeds is the platform's choice and may depend on everything that happened before:
  the two choices are parameters, as are the two build switches the file reads.

  An \<open>int\<close> has 32 bits and a \<open>size_t\<close> 64. An \<open>int\<close> passed where a
  \<open>size_t\<close> is expected is sign-extended (\<open>scast\<close>), a \<open>size_t\<close> stored in an
  \<open>int\<close> is cut to its low 32 bits (\<open>ucast\<close>), and \<open>int\<close> arithmetic that
  overflows is taken to wrap around. A \<open>CGFloat\<close> made from an \<open>int\<close> is that
  integer.
\<close>

type_synonym c_int = "32 word"

type_synonym size_t = "64 word"

type_synonym CGContextRef = "nat option"

record CGBitmapContext =
  cg_data :: "nat option"
  cg_width :: size_t
  cg_height :: size_t
  cg_retain_count :: nat

datatype SkMatrix = SkMatrix_identity | SkMatrix_other nat

datatype SkRegion = SkRegion_rect c_int c_int c_int c_int | SkRegion_other nat

datatype cg_event =
    Ev_allocPixels c_int c_int bool
  | Ev_eraseARGB nat nat nat nat
  | Ev_CGBitmapContextCreate "nat option" size_t size_t size_t size_t CGContextRef
  | Ev_CGContextTranslateCTM nat int int
  | Ev_CGContextScaleCTM nat int int
  | Ev_CGContextRetain CGContextRef
  | Ev_CGContextRelease CGContextRef
  | Ev_CGContextSaveGState CGContextRef
  | Ev_CGContextRestoreGState CGContextRef
  | Ev_LoadTransformToCGContext CGContextRef SkMatrix
  | Ev_LoadClippingRegionToCGContext CGContextRef SkRegion SkMatrix
  | Ev_new_BitmapPlatformDeviceData CGContextRef
  | Ev_new_BitmapPlatformDevice
  | Ev_CGBitmapContextCreateImage CGContextRef
  | Ev_CGImageCreateWithImageInRect "int \<times> int \<times> int \<times> int"
  | Ev_CGContextDrawImage CGContextRef "int \<times> int \<times> int \<times> int" bool
  | Ev_CGImageRelease bool

record cg_platform =
  allocPixels_ok :: "cg_event list \<Rightarrow> c_int \<Rightarrow> c_int \<Rightarrow> bool"
  CGBitmapContextCreate_ok ::
    "cg_event list \<Rightarrow> nat option \<Rightarrow> size_t \<Rightarrow> size_t \<Rightarrow> size_t \<Rightarrow> size_t \<Rightarrow> bool"
  SK_DEBUG :: bool
  NDEBUG :: bool

record cg_world =
  cg_contexts :: "nat \<Rightarrow> CGBitmapContext option"
  cg_next :: nat
  cg_trace :: "cg_event list"

datatype cg_failure = SkASSERT_failed

definition cg_note :: "cg_event \<Rightarrow> cg_world \<Rightarrow> cg_world" where
  "cg_note e s = s\<lparr>cg_trace := cg_trace s @ [e]\<rparr>"

subsection \<open>The platform calls the file makes\<close>

definition allocPixels ::
  "cg_platform \<Rightarrow> c_int \<Rightarrow> c_int \<Rightarrow> cg_world \<Rightarrow> nat option \<times> cg_world" where
  "allocPixels E w h s =
     (if allocPixels_ok E (cg_trace s) w h
      then (Some (cg_next s), cg_note (Ev_allocPixels w h True) (s\<lparr>cg_next := Suc (cg_next s)\<rparr>))
      else (None, cg_note (Ev_allocPixels w h False) s))"

definition CGBitmapContextCreate ::
  "cg_platform \<Rightarrow> nat option \<Rightarrow> size_t \<Rightarrow> size_t \<Rightarrow> size_t \<Rightarrow> size_t \<Rightarrow> cg_world
     \<Rightarrow> CGContextRef \<times> cg_world" where
  "CGBitmapContextCreate E data w h bits bytes_per_row s =
     (if CGBitmapContextCreate_ok E (cg_trace s) data w h bits bytes_per_row
      then (Some (cg_next s),
            cg_note (Ev_CGBitmapContextCreate data w h bits bytes_per_row (Some (cg_next s)))
              (s\<lparr>cg_contexts := (cg_contexts s)(cg_next s \<mapsto>
                     \<lparr>cg_data = data, cg_width = w, cg_height = h, cg_retain_count = 1\<rparr>),
                 cg_next := Suc (cg_next s)\<rparr>))
      else (None, cg_note (Ev_CGBitmapContextCreate data w h bits bytes_per_row None) s))"

text \<open>Retaining or releasing NULL does nothing; the last release frees the context.\<close>

definition CGContextRetain :: "CGContextRef \<Rightarrow> cg_world \<Rightarrow> cg_world" where
  "CGContextRetain c s =
     cg_note (Ev_CGContextRetain c)
       (case c of
          None \<Rightarrow> s
        | Some a \<Rightarrow>
            (case cg_contexts s a of
               None \<Rightarrow> s
             | Some x \<Rightarrow>
                 s\<lparr>cg_contexts := (cg_contexts s)(a \<mapsto>
                      x\<lparr>cg_retain_count := Suc (cg_retain_count x)\<rparr>)\<rparr>))"

definition CGContextRelease :: "CGContextRef \<Rightarrow> cg_world \<Rightarrow> cg_world" where
  "CGContextRelease c s =
     cg_note (Ev_CGContextRelease c)
       (case c of
          None \<Rightarrow> s
        | Some a \<Rightarrow>
            (case cg_contexts s a of
               None \<Rightarrow> s
             | Some x \<Rightarrow>
                 (if cg_retain_count x \<le> 1
                  then s\<lparr>cg_contexts := (cg_contexts s)(a := None)\<rparr>
                  else s\<lparr>cg_contexts := (cg_contexts s)(a \<mapsto>
                         x\<lparr>cg_retain_count := cg_retain_count x - 1\<rparr>)\<rparr>)))"

definition CGBitmapContextGetData :: "CGContextRef \<Rightarrow> cg_world \<Rightarrow> nat option" where
  "CGBitmapContextGetData c s =
     (case c of None \<Rightarrow> None
      | Some a \<Rightarrow> (case cg_contexts s a of None \<Rightarrow> None | Some x \<Rightarrow> cg_data x))"

definition CGBitmapContextGetWidth :: "CGContextRef \<Rightarrow> cg_world \<Rightarrow> size_t" where
  "CGBitmapContextGetWidth c s =
     (case c of None \<Rightarrow> 0
      | Some a \<Rightarrow> (case cg_contexts s a of None \<Rightarrow> 0 | Some x \<Rightarrow> cg_width x))"

definition CGBitmapContextGetHeight :: "CGContextRef \<Rightarrow> cg_world \<Rightarrow> size_t" where
  "CGBitmapContextGetHeight c s =
     (case c of None \<Rightarrow> 0
      | Some a \<Rightarrow> (case cg_contexts s a of None \<Rightarrow> 0 | Some x \<Rightarrow> cg_height x))"

subsection \<open>The device and its data\<close>

record SkBitmap =
  bm_width :: c_int
  bm_height :: c_int
  bm_pixels :: "nat option"
  bm_is_opaque :: bool

record BitmapPlatformDeviceData =
  bitmap_context :: CGContextRef
  config_dirty :: bool
  transform :: SkMatrix
  clip_region :: SkRegion

record BitmapPlatformDevice =
  dev_data :: BitmapPlatformDeviceData
  dev_bitmap :: SkBitmap

definition CGContextForData ::
  "cg_platform \<Rightarrow> nat option \<Rightarrow> c_int \<Rightarrow> c_int \<Rightarrow> cg_world \<Rightarrow> CGContextRef \<times> cg_world" where
  "CGContextForData E data width height s =
     (case CGBitmapContextCreate E data (scast width) (scast height) 8 (scast (width * 4)) s of
        (None, s1) \<Rightarrow> (None, s1)
      | (Some c, s1) \<Rightarrow>
          (Some c,
           cg_note (Ev_CGContextScaleCTM c 1 (- 1))
             (cg_note (Ev_CGContextTranslateCTM c 0 (sint height)) s1)))"

definition new_BitmapPlatformDeviceData ::
  "cg_platform \<Rightarrow> CGContextRef \<Rightarrow> cg_world
     \<Rightarrow> cg_failure + (BitmapPlatformDeviceData \<times> cg_world)" where
  "new_BitmapPlatformDeviceData E bitmap s =
     (if SK_DEBUG E \<and> bitmap = None then Inl SkASSERT_failed
      else
        Inr (\<lparr> bitmap_context = bitmap,
                config_dirty = True,
                transform = SkMatrix_identity,
                clip_region =
                  SkRegion_rect 0 0 (ucast (CGBitmapContextGetWidth bitmap s))
                    (ucast (CGBitmapContextGetHeight bitmap s)) \<rparr>,
             cg_note (Ev_CGContextSaveGState bitmap)
               (CGContextRetain bitmap
                  (cg_note (Ev_new_BitmapPlatformDeviceData bitmap) s))))"

definition ReleaseBitmapContext ::
  "cg_platform \<Rightarrow> BitmapPlatformDeviceData \<Rightarrow> cg_world
     \<Rightarrow> cg_failure + (BitmapPlatformDeviceData \<times> cg_world)" where
  "ReleaseBitmapContext E d s =
     (if SK_DEBUG E \<and> bitmap_context d = None then Inl SkASSERT_failed
      else Inr (d\<lparr>bitmap_context := None\<rparr>, CGContextRelease (bitmap_context d) s))"


definition LoadConfig ::
  "BitmapPlatformDeviceData \<Rightarrow> cg_world \<Rightarrow> BitmapPlatformDeviceData \<times> cg_world" where
  "LoadConfig d s =
     (if \<not> config_dirty d \<or> bitmap_context d = None then (d, s)
      else
        (d\<lparr>config_dirty := False\<rparr>,
         cg_note (Ev_LoadClippingRegionToCGContext (bitmap_context d) (clip_region d)
                    (transform d))
           (cg_note (Ev_LoadTransformToCGContext (bitmap_context d) (transform d))
              (cg_note (Ev_CGContextSaveGState (bitmap_context d))
                 (cg_note (Ev_CGContextRestoreGState (bitmap_context d)) s)))))"

subsection \<open>The factory functions\<close>

definition Create ::
  "cg_platform \<Rightarrow> CGContextRef \<Rightarrow> c_int \<Rightarrow> c_int \<Rightarrow> bool \<Rightarrow> cg_world
     \<Rightarrow> cg_failure + (BitmapPlatformDevice option \<times> cg_world)" where
  "Create E context width height is_opaque s =
     (case allocPixels E width height s of
        (None, s1) \<Rightarrow> Inr (None, s1)
      | (Some px, s1) \<Rightarrow>
          (let data = (case context of
                         Some c \<Rightarrow> CGBitmapContextGetData context s1
                       | None \<Rightarrow> Some px);
               s2 = (case context of
                       Some c \<Rightarrow> s1
                     | None \<Rightarrow> cg_note (Ev_eraseARGB 0 0 0 0) s1);
               s3 = (if \<not> NDEBUG E \<and> context = None \<and> is_opaque
                     then cg_note (Ev_eraseARGB 255 0 255 128) s2 else s2);
               bitmap = \<lparr> bm_width = width, bm_height = height, bm_pixels = data,
                          bm_is_opaque = is_opaque \<rparr>
           in (case (case context of
                       None \<Rightarrow> CGContextForData E data width height s3
                     | Some c \<Rightarrow> (context, CGContextRetain context s3)) of
                 (None, s4) \<Rightarrow> Inr (None, s4)
               | (Some c, s4) \<Rightarrow>
                   (case new_BitmapPlatformDeviceData E (Some c) s4 of
                      Inl f \<Rightarrow> Inl f
                    | Inr (d, s5) \<Rightarrow>
                        Inr (Some \<lparr> dev_data = d, dev_bitmap = bitmap \<rparr>,
                             CGContextRelease (Some c)
                               (cg_note Ev_new_BitmapPlatformDevice s5))))))"

definition CreateWithData ::
  "cg_platform \<Rightarrow> nat option \<Rightarrow> c_int \<Rightarrow> c_int \<Rightarrow> bool \<Rightarrow> cg_world
     \<Rightarrow> cg_failure + (BitmapPlatformDevice option \<times> cg_world)" where
  "CreateWithData E data width height is_opaque s =
     (case (case data of
              None \<Rightarrow> (None, s)
            | Some a \<Rightarrow> CGContextForData E data width height s) of
        (context, s1) \<Rightarrow>
          (case Create E context width height is_opaque s1 of
             Inl f \<Rightarrow> Inl f
           | Inr (rv, s2) \<Rightarrow>
               Inr (rv, (case context of
                           None \<Rightarrow> s2
                         | Some c \<Rightarrow> CGContextRelease context s2))))"

text \<open>The context \<open>CreateWithData\<close> hands to \<open>Create\<close>, and the world at that call.\<close>

definition CreateWithData_inner ::
  "cg_platform \<Rightarrow> nat option \<Rightarrow> c_int \<Rightarrow> c_int \<Rightarrow> cg_world \<Rightarrow> CGContextRef \<times> cg_world" where
  "CreateWithData_inner E data width height s =
     (case data of
        None \<Rightarrow> (None, s)
      | Some a \<Rightarrow> CGContextForData E data width height s)"

subsection \<open>Drawing\<close>

definition GetBitmapContext ::
  "BitmapPlatformDevice \<Rightarrow> cg_world \<Rightarrow> CGContextRef \<times> BitmapPlatformDevice \<times> cg_world" where
  "GetBitmapContext dev s =
     (case LoadConfig (dev_data dev) s of
        (d, s1) \<Rightarrow> (bitmap_context d, dev\<lparr>dev_data := d\<rparr>, s1))"

text \<open>
  A \<open>CGRect\<close> is (x, y, width, height); \<open>src_rect\<close> may be NULL. An image made from
  no context is NULL, which the draw and release events record as \<open>False\<close>.
\<close>

definition DrawToNativeContext ::
  "cg_platform \<Rightarrow> BitmapPlatformDevice \<Rightarrow> CGContextRef \<Rightarrow> c_int \<Rightarrow> c_int
     \<Rightarrow> (int \<times> int \<times> int \<times> int) option \<Rightarrow> cg_world
     \<Rightarrow> cg_failure + (BitmapPlatformDevice \<times> cg_world)" where
  "DrawToNativeContext E dev context x y src_rect s =
     (let created_dc = (bitmap_context (dev_data dev) = None);
          after_get = (if created_dc
                       then (case GetBitmapContext dev s of (c, dev', s') \<Rightarrow> (dev', s'))
                       else (dev, s));
          dev1 = fst after_get;
          s1 = snd after_get;
          image = (bitmap_context (dev_data dev1) \<noteq> None);
          s2 = cg_note (Ev_CGBitmapContextCreateImage (bitmap_context (dev_data dev1))) s1;
          s3 = (case src_rect of
                  Some (rx, ry, rw, rh) \<Rightarrow>
                    cg_note (Ev_CGImageRelease image)
                      (cg_note (Ev_CGContextDrawImage context (sint x, sint y, rw, rh) image)
                         (cg_note (Ev_CGImageCreateWithImageInRect (rx, ry, rw, rh)) s2))
                | None \<Rightarrow>
                    cg_note (Ev_CGContextDrawImage context
                               (sint x, sint y, sint (bm_width (dev_bitmap dev1)),
                                sint (bm_height (dev_bitmap dev1)))
                               image) s2);
          s4 = cg_note (Ev_CGImageRelease image) s3
      in if created_dc
         then (case ReleaseBitmapContext E (dev_data dev1) s4 of
                 Inl f \<Rightarrow> Inl f
               | Inr (d, s5) \<Rightarrow> Inr (dev1\<lparr>dev_data := d\<rparr>, s5))
         else Inr (dev1, s4))"

text \<open>The events a call added to the trace.\<close>

definition cg_new_events :: "cg_world \<Rightarrow> cg_world \<Rightarrow> cg_event list" where
  "cg_new_events s s' = drop (length (cg_trace s)) (cg_trace s')"

definition alloc_failed :: "cg_event \<Rightarrow> bool" where
  "alloc_failed e = (case e of Ev_allocPixels w h ok \<Rightarrow> \<not> ok | _ \<Rightarrow> False)"

definition context_create_failed :: "cg_event \<Rightarrow> bool" where
  "context_create_failed e =
     (case e of Ev_CGBitmapContextCreate d w h b r c \<Rightarrow> c = None | _ \<Rightarrow> False)"

definition device_constructed :: "cg_event \<Rightarrow> bool" where
  "device_constructed e =
     (case e of
        Ev_new_BitmapPlatformDevice \<Rightarrow> True
      | Ev_new_BitmapPlatformDeviceData c \<Rightarrow> True
      | _ \<Rightarrow> False)"

definition context_created :: "cg_event \<Rightarrow> bool" where
  "context_created e =
     (case e of Ev_CGBitmapContextCreate d w h b r c \<Rightarrow> c \<noteq> None | _ \<Rightarrow> False)"

text \<open>Platforms and a world for the examples.\<close>

definition cg_platform_of :: "bool \<Rightarrow> bool \<Rightarrow> bool \<Rightarrow> cg_platform" where
  "cg_platform_of alloc_ok create_ok debug =
     \<lparr> allocPixels_ok = (\<lambda>tr w h. alloc_ok),
       CGBitmapContextCreate_ok = (\<lambda>tr d w h bits bytes_per_row. create_ok),
       SK_DEBUG = debug,
       NDEBUG = (\<not> debug) \<rparr>"

definition cg_fresh :: cg_world where
  "cg_fresh = \<lparr> cg_contexts = (\<lambda>a. None), cg_next = 100, cg_trace = [] \<rparr>"

text \<open>A platform on which the first creation of a context fails and the later ones succeed.\<close>

definition cg_platform_first_context_fails :: cg_platform where
  "cg_platform_first_context_fails =
     \<lparr> allocPixels_ok = (\<lambda>tr w h. True),
       CGBitmapContextCreate_ok = (\<lambda>tr d w h bits bytes_per_row. tr \<noteq> []),
       SK_DEBUG = False,
       NDEBUG = True \<rparr>"


subsection \<open>What the platform answers during a call of Create\<close>

text \<open>
  The platform is asked at most twice during \<open>Create\<close>: for the pixels, with the calls
  made so far, and, when no context was given, for a context over the pixels just
  allocated, after the calls that erase them. \<open>CreateWithData\<close> asks for a context over
  the data it was given before it calls \<open>Create\<close>.
\<close>

definition Create_trace_at_context ::
  "cg_platform \<Rightarrow> c_int \<Rightarrow> c_int \<Rightarrow> bool \<Rightarrow> cg_world \<Rightarrow> cg_event list" where
  "Create_trace_at_context E width height is_opaque s =
     cg_trace s @ [Ev_allocPixels width height True, Ev_eraseARGB 0 0 0 0]
     @ (if \<not> NDEBUG E \<and> is_opaque then [Ev_eraseARGB 255 0 255 128] else [])"

definition Create_context_answer ::
  "cg_platform \<Rightarrow> c_int \<Rightarrow> c_int \<Rightarrow> bool \<Rightarrow> cg_world \<Rightarrow> bool" where
  "Create_context_answer E width height is_opaque s =
     CGBitmapContextCreate_ok E (Create_trace_at_context E width height is_opaque s)
       (Some (cg_next s)) (scast width) (scast height) 8 (scast (width * 4))"

definition CreateWithData_context_answer ::
  "cg_platform \<Rightarrow> nat option \<Rightarrow> c_int \<Rightarrow> c_int \<Rightarrow> cg_world \<Rightarrow> bool" where
  "CreateWithData_context_answer E data width height s =
     CGBitmapContextCreate_ok E (cg_trace s) data (scast width) (scast height) 8
       (scast (width * 4))"

subsection \<open>The devices the file makes\<close>






section \<open>The ICU common-data entry point (the patch to udata.cpp, ucmndata.h, stubdata.c)\<close>

subsection \<open>The patch\<close>

text \<open>
  The patch as it stands in the sources: per file its hunks, each with the four numbers
  of its \<open>@@\<close> line and the kind of every line under it (context, deleted, added).
\<close>

datatype diff_line = Ctx | Del | Add

record hunk =
  old_start :: nat
  old_len :: nat
  new_start :: nat
  new_len :: nat
  hunk_lines :: "diff_line list"

record file_diff =
  diff_path :: string
  diff_hunks :: "hunk list"

definition one_line_hunk :: "nat \<Rightarrow> hunk" where
  "one_line_hunk first_line =
     \<lparr> old_start = first_line, old_len = 7, new_start = first_line, new_len = 7,
       hunk_lines = [Ctx, Ctx, Ctx, Del, Add, Ctx, Ctx, Ctx] \<rparr>"

definition udata_cpp_diff :: file_diff where
  "udata_cpp_diff =
     \<lparr> diff_path = ''source/common/udata.cpp'',
       diff_hunks = [one_line_hunk 610, one_line_hunk 656, one_line_hunk 675] \<rparr>"

definition ucmndata_h_diff :: file_diff where
  "ucmndata_h_diff =
     \<lparr> diff_path = ''source/common/ucmndata.h'',
       diff_hunks =
         [\<lparr> old_start = 44, old_len = 6, new_start = 44, new_len = 20,
            hunk_lines = [Ctx, Ctx, Ctx] @ replicate 14 Add @ [Ctx, Ctx, Ctx] \<rparr>] \<rparr>"

definition stubdata_c_diff :: file_diff where
  "stubdata_c_diff =
     \<lparr> diff_path = ''source/stubdata/stubdata.c'',
       diff_hunks =
         [\<lparr> old_start = 20, old_len = 45, new_start = 20, new_len = 34,
            hunk_lines =
              [Ctx, Ctx, Ctx, Add, Ctx, Ctx] @ replicate 16 Del @ [Ctx] @ replicate 6 Del
              @ replicate 9 Add @ [Ctx, Ctx, Del, Add, Ctx, Del, Add, Ctx, Ctx]
              @ replicate 7 Del @ replicate 8 Add @ [Ctx, Ctx, Ctx] \<rparr>] \<rparr>"

definition icu_patch :: "file_diff list" where
  "icu_patch = [udata_cpp_diff, ucmndata_h_diff, stubdata_c_diff]"

definition count_kind :: "diff_line \<Rightarrow> file_diff \<Rightarrow> nat" where
  "count_kind k f = length (filter (\<lambda>l. l = k) (concat (map hunk_lines (diff_hunks f))))"

text \<open>Every hunk has the numbers of old and new lines its \<open>@@\<close> line announces.\<close>

definition hunk_consistent :: "hunk \<Rightarrow> bool" where
  "hunk_consistent h =
     (length (filter (\<lambda>l. l \<noteq> Add) (hunk_lines h)) = old_len h
      \<and> length (filter (\<lambda>l. l \<noteq> Del) (hunk_lines h)) = new_len h)"

definition is_header_file :: "string \<Rightarrow> bool" where
  "is_header_file path = (length path \<ge> 2 \<and> drop (length path - 2) path = ''.h'')"

text \<open>
  The shape the description gives the change: one file, a header, with one line replaced
  by one line.
\<close>

definition one_line_change_in_single_header :: "file_diff list \<Rightarrow> bool" where
  "one_line_change_in_single_header p =
     (length p = 1
      \<and> list_all (\<lambda>f. is_header_file (diff_path f)
                       \<and> count_kind Del f = 1 \<and> count_kind Add f = 1) p)"

subsection \<open>The structures\<close>

text \<open>
  \<open>MappedData\<close> has the three members the flat structure of stubdata.c began with.
  \<open>UDataInfo\<close> is declared in the public header unicode/udata.h, which is not among
  the sources: its members are those the initialiser lists, in its order, with the widths
  of that header (two 16-bit members, four bytes, three arrays of four bytes).
\<close>

record MappedData =
  headerSize :: "16 word"
  magic1 :: "8 word"
  magic2 :: "8 word"

record UDataInfo =
  info_size :: "16 word"
  reservedWord :: "16 word"
  isBigEndian :: "8 word"
  charsetFamily :: "8 word"
  sizeofUChar :: "8 word"
  reservedByte :: "8 word"
  dataFormat :: "8 word list"
  formatVersion :: "8 word list"
  dataVersion :: "8 word list"

record DataHeader =
  dataHeader :: MappedData
  info :: UDataInfo

text \<open>The structure after the patch (ucmndata.h).\<close>

record ICU_Data_Header =
  hdr :: DataHeader
  padding :: "8 word list"
  count :: "32 word"
  reserved :: "32 word"
  fakeNameAndData :: "32 word list"

text \<open>The structure before the patch (the typedef the patch removes from stubdata.c).\<close>

record ICU_Data_Header_flat =
  flat_headerSize :: "16 word"
  flat_magic1 :: "8 word"
  flat_magic2 :: "8 word"
  flat_info :: UDataInfo
  flat_padding :: "8 word list"
  flat_count :: "32 word"
  flat_reserved :: "32 word"
  flat_fakeNameAndData :: "32 word list"

text \<open>
  What the initialiser takes from the platform's headers, and the two initialisers past
  the end of the hunk, which the patch leaves as they were.
\<close>

record icu_config =
  sizeof_UDataInfo :: "16 word"
  U_IS_BIG_ENDIAN :: bool
  U_CHARSET_FAMILY :: "8 word"
  sizeof_UChar :: "8 word"
  init_reserved :: "32 word"
  init_fakeNameAndData :: "32 word \<times> 32 word \<times> 32 word \<times> 32 word"

definition entry_fakeNameAndData :: "icu_config \<Rightarrow> 32 word list" where
  "entry_fakeNameAndData c =
     (case init_fakeNameAndData c of (a, b, c, d) \<Rightarrow> [a, b, c, d])"

definition entry_UDataInfo :: "icu_config \<Rightarrow> UDataInfo" where
  "entry_UDataInfo c =
     \<lparr> info_size = sizeof_UDataInfo c,
       reservedWord = 0,
       isBigEndian = (if U_IS_BIG_ENDIAN c then 1 else 0),
       charsetFamily = U_CHARSET_FAMILY c,
       sizeofUChar = sizeof_UChar c,
       reservedByte = 0,
       dataFormat = [0x54, 0x6f, 0x43, 0x50],
       formatVersion = [1, 0, 0, 0],
       dataVersion = [0, 0, 0, 0] \<rparr>"

definition U_ICUDATA_ENTRY_POINT_flat :: "icu_config \<Rightarrow> ICU_Data_Header_flat" where
  "U_ICUDATA_ENTRY_POINT_flat c =
     \<lparr> flat_headerSize = 32,
       flat_magic1 = 0xda,
       flat_magic2 = 0x27,
       flat_info = entry_UDataInfo c,
       flat_padding = [0, 0, 0, 0, 0, 0, 0, 0],
       flat_count = 0,
       flat_reserved = init_reserved c,
       flat_fakeNameAndData = entry_fakeNameAndData c \<rparr>"

definition U_ICUDATA_ENTRY_POINT :: "icu_config \<Rightarrow> ICU_Data_Header" where
  "U_ICUDATA_ENTRY_POINT c =
     \<lparr> hdr = \<lparr> dataHeader = \<lparr> headerSize = 32, magic1 = 0xda, magic2 = 0x27 \<rparr>,
               info = entry_UDataInfo c \<rparr>,
       padding = [0, 0, 0, 0, 0, 0, 0, 0],
       count = 0,
       reserved = init_reserved c,
       fakeNameAndData = entry_fakeNameAndData c \<rparr>"

text \<open>
  Before the patch udata.cpp declared the entry point as a \<open>DataHeader\<close> and took its
  address: it read the leading members of the flat structure as a \<open>DataHeader\<close>.
\<close>

definition flat_as_DataHeader :: "ICU_Data_Header_flat \<Rightarrow> DataHeader" where
  "flat_as_DataHeader f =
     \<lparr> dataHeader = \<lparr> headerSize = flat_headerSize f, magic1 = flat_magic1 f,
                      magic2 = flat_magic2 f \<rparr>,
       info = flat_info f \<rparr>"

definition nest :: "ICU_Data_Header_flat \<Rightarrow> ICU_Data_Header" where
  "nest f =
     \<lparr> hdr = flat_as_DataHeader f,
       padding = flat_padding f,
       count = flat_count f,
       reserved = flat_reserved f,
       fakeNameAndData = flat_fakeNameAndData f \<rparr>"

definition flatten :: "ICU_Data_Header \<Rightarrow> ICU_Data_Header_flat" where
  "flatten h =
     \<lparr> flat_headerSize = headerSize (dataHeader (hdr h)),
       flat_magic1 = magic1 (dataHeader (hdr h)),
       flat_magic2 = magic2 (dataHeader (hdr h)),
       flat_info = info (hdr h),
       flat_padding = padding h,
       flat_count = count h,
       flat_reserved = reserved h,
       flat_fakeNameAndData = fakeNameAndData h \<rparr>"

subsection \<open>The layout of the structures in memory\<close>

text \<open>
  A C object is a scalar or a sequence of members (a structure; an array is laid out the
  same way). A scalar is aligned to its size, a structure to the largest alignment among
  its members; members follow each other in the order of their declaration, each after
  the padding its alignment needs, and a structure ends with the padding that makes its
  size a multiple of its alignment. A byte of padding is \<open>None\<close>.
\<close>

datatype c_scalar = U8 "8 word" | U16 "16 word" | U32 "32 word"

datatype c_obj = Scalar c_scalar | Struct "c_obj list"

fun scalar_bytes :: "bool \<Rightarrow> c_scalar \<Rightarrow> 8 word list" where
  "scalar_bytes big_endian (U8 w) = [w]"
| "scalar_bytes big_endian (U16 w) =
     (if big_endian then [ucast (drop_bit 8 w), ucast w]
      else [ucast w, ucast (drop_bit 8 w)])"
| "scalar_bytes big_endian (U32 w) =
     (if big_endian
      then [ucast (drop_bit 24 w), ucast (drop_bit 16 w), ucast (drop_bit 8 w), ucast w]
      else [ucast w, ucast (drop_bit 8 w), ucast (drop_bit 16 w), ucast (drop_bit 24 w)])"

fun c_align :: "c_obj \<Rightarrow> nat" where
  "c_align (Scalar (U8 w)) = 1"
| "c_align (Scalar (U16 w)) = 2"
| "c_align (Scalar (U32 w)) = 4"
| "c_align (Struct ms) = foldr max (map c_align ms) 1"

definition pad_to :: "nat \<Rightarrow> nat \<Rightarrow> nat" where
  "pad_to a off = (a - off mod a) mod a"

fun c_size :: "c_obj \<Rightarrow> nat"
  and c_end :: "nat \<Rightarrow> c_obj list \<Rightarrow> nat" where
  "c_size (Scalar (U8 w)) = 1"
| "c_size (Scalar (U16 w)) = 2"
| "c_size (Scalar (U32 w)) = 4"
| "c_size (Struct ms) =
     c_end 0 ms + pad_to (foldr max (map c_align ms) 1) (c_end 0 ms)"
| "c_end off [] = off"
| "c_end off (m # ms) = c_end (off + pad_to (c_align m) off + c_size m) ms"

fun c_bytes :: "bool \<Rightarrow> c_obj \<Rightarrow> 8 word option list"
  and c_members :: "bool \<Rightarrow> nat \<Rightarrow> c_obj list \<Rightarrow> 8 word option list" where
  "c_bytes big_endian (Scalar x) = map Some (scalar_bytes big_endian x)"
| "c_bytes big_endian (Struct ms) =
     c_members big_endian 0 ms
     @ replicate (pad_to (foldr max (map c_align ms) 1) (c_end 0 ms)) None"
| "c_members big_endian off [] = []"
| "c_members big_endian off (m # ms) =
     replicate (pad_to (c_align m) off) None @ c_bytes big_endian m
     @ c_members big_endian (off + pad_to (c_align m) off + c_size m) ms"

text \<open>Where a member of a structure starts: the offset of the member at position \<open>k\<close>.\<close>

fun c_offset :: "nat \<Rightarrow> c_obj list \<Rightarrow> nat \<Rightarrow> nat" where
  "c_offset off [] k = off"
| "c_offset off (m # ms) 0 = off + pad_to (c_align m) off"
| "c_offset off (m # ms) (Suc k) =
     c_offset (off + pad_to (c_align m) off + c_size m) ms k"

definition obj_MappedData :: "MappedData \<Rightarrow> c_obj" where
  "obj_MappedData m =
     Struct [Scalar (U16 (headerSize m)), Scalar (U8 (magic1 m)), Scalar (U8 (magic2 m))]"

definition obj_UDataInfo :: "UDataInfo \<Rightarrow> c_obj" where
  "obj_UDataInfo i =
     Struct [Scalar (U16 (info_size i)), Scalar (U16 (reservedWord i)),
             Scalar (U8 (isBigEndian i)), Scalar (U8 (charsetFamily i)),
             Scalar (U8 (sizeofUChar i)), Scalar (U8 (reservedByte i)),
             Struct (map (\<lambda>b. Scalar (U8 b)) (dataFormat i)),
             Struct (map (\<lambda>b. Scalar (U8 b)) (formatVersion i)),
             Struct (map (\<lambda>b. Scalar (U8 b)) (dataVersion i))]"

definition obj_DataHeader :: "DataHeader \<Rightarrow> c_obj" where
  "obj_DataHeader d = Struct [obj_MappedData (dataHeader d), obj_UDataInfo (info d)]"

definition obj_ICU_Data_Header :: "ICU_Data_Header \<Rightarrow> c_obj" where
  "obj_ICU_Data_Header h =
     Struct [obj_DataHeader (hdr h),
             Struct (map (\<lambda>b. Scalar (U8 b)) (padding h)),
             Scalar (U32 (count h)), Scalar (U32 (reserved h)),
             Struct (map (\<lambda>w. Scalar (U32 w)) (fakeNameAndData h))]"

definition obj_ICU_Data_Header_flat :: "ICU_Data_Header_flat \<Rightarrow> c_obj" where
  "obj_ICU_Data_Header_flat f =
     Struct [Scalar (U16 (flat_headerSize f)), Scalar (U8 (flat_magic1 f)),
             Scalar (U8 (flat_magic2 f)),
             obj_UDataInfo (flat_info f),
             Struct (map (\<lambda>b. Scalar (U8 b)) (flat_padding f)),
             Scalar (U32 (flat_count f)), Scalar (U32 (flat_reserved f)),
             Struct (map (\<lambda>w. Scalar (U32 w)) (flat_fakeNameAndData f))]"

text \<open>A configuration for the examples: a little-endian ASCII platform.\<close>

definition icu_config_le :: icu_config where
  "icu_config_le =
     \<lparr> sizeof_UDataInfo = 20, U_IS_BIG_ENDIAN = False, U_CHARSET_FAMILY = 0,
       sizeof_UChar = 2, init_reserved = 0, init_fakeNameAndData = (0, 0, 0, 0) \<rparr>"

section \<open>Located events (ui/views/events/event.cc)\<close>

text \<open>
  An event has a type (a value of the enum \<open>EventType\<close>) and flags; a located event
  adds a location. \<open>View::ConvertPointToView\<close> is declared in ui/views/view.h, which is
  not among the sources: it is a parameter of the converting constructor, which
  dereferences both of its view pointers. The section on converting points between views
  gives the conversion the spec describes, which the properties of located events put in
  its place.
\<close>

record Event =
  event_type :: nat
  event_flags :: int

record LocatedEvent = Event +
  location :: "int \<times> int"

datatype event_failure = Null_dereference

definition Event_new :: "nat \<Rightarrow> int \<Rightarrow> Event" where
  "Event_new type flags = \<lparr> event_type = type, event_flags = flags \<rparr>"

definition LocatedEvent_new :: "nat \<Rightarrow> int \<times> int \<Rightarrow> int \<Rightarrow> LocatedEvent" where
  "LocatedEvent_new type loc flags =
     \<lparr> event_type = type, event_flags = flags, location = loc \<rparr>"

definition LocatedEvent_convert ::
  "('v \<Rightarrow> 'v \<Rightarrow> int \<times> int \<Rightarrow> int \<times> int) \<Rightarrow> LocatedEvent \<Rightarrow> 'v option \<Rightarrow> 'v option
     \<Rightarrow> event_failure + LocatedEvent" where
  "LocatedEvent_convert ConvertPointToView other source target =
     (case source of
        None \<Rightarrow> Inl Null_dereference
      | Some src \<Rightarrow>
          (case target of
             None \<Rightarrow> Inl Null_dereference
           | Some tgt \<Rightarrow>
               (let base = Event_new (event_type other) (event_flags other);
                    location0 = location other
                in Inr \<lparr> event_type = event_type base, event_flags = event_flags base,
                         location = ConvertPointToView src tgt location0 \<rparr>)))"

text \<open>A mouse event is a located event with no member of its own.\<close>

definition MouseEvent_convert ::
  "('v \<Rightarrow> 'v \<Rightarrow> int \<times> int \<Rightarrow> int \<times> int) \<Rightarrow> LocatedEvent \<Rightarrow> 'v option \<Rightarrow> 'v option
     \<Rightarrow> event_failure + LocatedEvent" where
  "MouseEvent_convert ConvertPointToView other source target =
     LocatedEvent_convert ConvertPointToView other source target"

section \<open>The view hierarchy (the class the tests of views/view\_unittest.cc exercise)\<close>

text \<open>
  A view is an object in a store of views; a pointer to a view is its address, NULL is
  \<open>None\<close>. A view knows its parent and its children, in order, and its bounds
  (x, y, width, height) in its parent's coordinates.
\<close>

type_synonym gfx_Rect = "int \<times> int \<times> int \<times> int"

record View =
  parent :: "nat option"
  children :: "nat list"
  bounds :: gfx_Rect

type_synonym view_store = "nat \<Rightarrow> View option"

subsection \<open>Bounds\<close>

text \<open>
  The view of the tests (from the test file): it records that its bounds changed, and
  the bounds it has when it is told.
\<close>

record TestView = View +
  did_change_bounds :: bool
  new_bounds :: gfx_Rect

definition TestView_Reset :: "TestView \<Rightarrow> TestView" where
  "TestView_Reset v = v\<lparr>did_change_bounds := False\<rparr>"

definition TestView_OnBoundsChanged :: "gfx_Rect \<Rightarrow> TestView \<Rightarrow> TestView" where
  "TestView_OnBoundsChanged previous_bounds v =
     v\<lparr>did_change_bounds := True, new_bounds := bounds v\<rparr>"

text \<open>
  Modelled from the spec: \<open>View::SetBoundsRect\<close> (views/view.cc is not among the
  sources). Setting the bounds a view already has changes nothing; otherwise the bounds
  are updated and then the view's \<open>OnBoundsChanged\<close>, a virtual method and so a
  parameter, is called with the previous bounds.
\<close>

definition SetBoundsRect ::
  "(gfx_Rect \<Rightarrow> 'a View_scheme \<Rightarrow> 'a View_scheme) \<Rightarrow> gfx_Rect \<Rightarrow> 'a View_scheme
     \<Rightarrow> 'a View_scheme" where
  "SetBoundsRect OnBoundsChanged r v =
     (if r = bounds v then v else OnBoundsChanged (bounds v) (v\<lparr>bounds := r\<rparr>))"

definition TestView_new :: TestView where
  "TestView_new =
     \<lparr> parent = None, children = [], bounds = (0, 0, 0, 0),
       did_change_bounds = False, new_bounds = (0, 0, 0, 0) \<rparr>"

subsection \<open>The tree of views\<close>

text \<open>
  Modelled from the spec: \<open>View::GetIndexOf\<close>, \<open>Contains\<close>, \<open>AddChildView\<close>,
  \<open>ReorderChildView\<close> and \<open>RemoveAllChildViews\<close> (views/view.cc is not among the
  sources; the tests GetIndexOf, Contains and ReorderChildren call them).
  \<open>GetIndexOf\<close> is the position of a view among the children, or -1. \<open>Contains\<close>
  follows the parent pointers from the view it is asked about, and returns nothing when
  the walk does not end. \<open>AddChildView\<close> takes the view from its old parent, if it
  has one, and appends it to the children; a view is not added to itself or below itself.
  \<open>ReorderChildView\<close> moves a child to a position, a negative position meaning the
  end. \<open>RemoveAllChildViews\<close> detaches every child; freeing memory is not modelled.
  An operation on a pointer that is not a view of the store has no result.
\<close>

fun index_of :: "nat \<Rightarrow> nat list \<Rightarrow> int" where
  "index_of x [] = - 1"
| "index_of x (y # ys) =
     (if x = y then 0 else if index_of x ys < 0 then - 1 else index_of x ys + 1)"

definition GetIndexOf :: "view_store \<Rightarrow> nat \<Rightarrow> nat option \<Rightarrow> int option" where
  "GetIndexOf s self view =
     (case s self of
        None \<Rightarrow> None
      | Some v \<Rightarrow> Some (case view of None \<Rightarrow> - 1 | Some c \<Rightarrow> index_of c (children v)))"

partial_function (option) Contains :: "view_store \<Rightarrow> nat \<Rightarrow> nat option \<Rightarrow> bool option" where
  "Contains s self view =
     (case view of
        None \<Rightarrow> Some False
      | Some x \<Rightarrow>
          if x = self then Some True
          else (case s x of None \<Rightarrow> None | Some v \<Rightarrow> Contains s self (parent v)))"

text \<open>The descendants of a view, going down through the lists of children.\<close>

inductive descendant :: "view_store \<Rightarrow> nat \<Rightarrow> nat \<Rightarrow> bool" for s :: view_store and v :: nat where
  child: "s v = Some vv \<Longrightarrow> c \<in> set (children vv) \<Longrightarrow> descendant s v c"
| below: "descendant s v u \<Longrightarrow> s u = Some uu \<Longrightarrow> c \<in> set (children uu) \<Longrightarrow> descendant s v c"

definition new_View :: "view_store \<Rightarrow> nat \<Rightarrow> gfx_Rect \<Rightarrow> view_store option" where
  "new_View s a b =
     (if s a = None then Some (s(a \<mapsto> \<lparr> parent = None, children = [], bounds = b \<rparr>))
      else None)"

definition unlink_child :: "view_store \<Rightarrow> nat \<Rightarrow> nat \<Rightarrow> view_store" where
  "unlink_child s p c =
     (case s p of
        None \<Rightarrow> s
      | Some pp \<Rightarrow> s(p \<mapsto> pp\<lparr>children := removeAll c (children pp)\<rparr>))"

definition AddChildView :: "view_store \<Rightarrow> nat \<Rightarrow> nat \<Rightarrow> view_store option" where
  "AddChildView s self view =
     (case s self of
        None \<Rightarrow> None
      | Some v0 \<Rightarrow>
          (case s view of
             None \<Rightarrow> None
           | Some c0 \<Rightarrow>
               if Contains s view (Some self) \<noteq> Some False then None
               else
                 (let s1 = (case parent c0 of
                              None \<Rightarrow> s
                            | Some p \<Rightarrow> unlink_child s p view)
                  in (case s1 self of
                        None \<Rightarrow> None
                      | Some v1 \<Rightarrow>
                          Some (s1(view \<mapsto> c0\<lparr>parent := Some self\<rparr>,
                                   self \<mapsto> v1\<lparr>children := children v1 @ [view]\<rparr>))))))"

definition ReorderChildView :: "view_store \<Rightarrow> nat \<Rightarrow> nat \<Rightarrow> int \<Rightarrow> view_store option" where
  "ReorderChildView s self view index =
     (case s self of
        None \<Rightarrow> None
      | Some v \<Rightarrow>
          if view \<notin> set (children v) then None
          else
            (let n = int (length (children v));
                 i = (if index < 0 then n - 1 else index)
             in if i \<ge> n then Some s
                else
                  (let rest = removeAll view (children v)
                   in Some (s(self \<mapsto>
                        v\<lparr>children := take (nat i) rest @ [view] @ drop (nat i) rest\<rparr>)))))"

definition orphan :: "nat \<Rightarrow> view_store \<Rightarrow> view_store" where
  "orphan c s = (case s c of None \<Rightarrow> s | Some cc \<Rightarrow> s(c \<mapsto> cc\<lparr>parent := None\<rparr>))"

definition RemoveAllChildViews :: "view_store \<Rightarrow> nat \<Rightarrow> view_store option" where
  "RemoveAllChildViews s self =
     (case s self of
        None \<Rightarrow> None
      | Some v \<Rightarrow>
          (case fold orphan (children v) s self of
             None \<Rightarrow> None
           | Some v1 \<Rightarrow> Some ((fold orphan (children v) s)(self \<mapsto> v1\<lparr>children := []\<rparr>))))"

text \<open>The stores the operations build, starting with no views.\<close>

inductive view_trees :: "view_store \<Rightarrow> bool" where
  no_views: "view_trees (\<lambda>a. None)"
| created: "view_trees s \<Longrightarrow> new_View s a b = Some s' \<Longrightarrow> view_trees s'"
| added: "view_trees s \<Longrightarrow> AddChildView s v c = Some s' \<Longrightarrow> view_trees s'"
| reordered: "view_trees s \<Longrightarrow> ReorderChildView s v c i = Some s' \<Longrightarrow> view_trees s'"
| emptied: "view_trees s \<Longrightarrow> RemoveAllChildViews s v = Some s' \<Longrightarrow> view_trees s'"

text \<open>
  Parent/child consistency: a view's parent has it among its children, a view's children
  have it as their parent, no view is twice among the children of a view, and the parent
  pointers form no cycle (a rank decreases towards the parents).
\<close>

definition consistent :: "view_store \<Rightarrow> bool" where
  "consistent s =
     ((\<forall>c cc p. s c = Some cc \<longrightarrow> parent cc = Some p \<longrightarrow>
          (\<exists>pp. s p = Some pp \<and> c \<in> set (children pp)))
      \<and> (\<forall>p pp c. s p = Some pp \<longrightarrow> c \<in> set (children pp) \<longrightarrow>
          (\<exists>cc. s c = Some cc \<and> parent cc = Some p))
      \<and> (\<forall>p pp. s p = Some pp \<longrightarrow> distinct (children pp))
      \<and> (\<exists>d :: nat \<Rightarrow> nat. \<forall>c cc p. s c = Some cc \<longrightarrow> parent cc = Some p \<longrightarrow> d p < d c))"

text \<open>Sequences of operations, and the tree the test GetIndexOf builds.\<close>

datatype view_op =
    New_View nat gfx_Rect
  | Add_Child nat nat
  | Reorder_Child nat nat int
  | Remove_All nat

fun apply_view_op :: "view_op \<Rightarrow> view_store \<Rightarrow> view_store option" where
  "apply_view_op (New_View a b) s = new_View s a b"
| "apply_view_op (Add_Child v c) s = AddChildView s v c"
| "apply_view_op (Reorder_Child v c i) s = ReorderChildView s v c i"
| "apply_view_op (Remove_All v) s = RemoveAllChildViews s v"

fun run_view_ops :: "view_op list \<Rightarrow> view_store \<Rightarrow> view_store option" where
  "run_view_ops [] s = Some s"
| "run_view_ops (op # ops) s =
     (case apply_view_op op s of None \<Rightarrow> None | Some s1 \<Rightarrow> run_view_ops ops s1)"

definition GetIndexOf_test_ops :: "view_op list" where
  "GetIndexOf_test_ops =
     [New_View 1 (0, 0, 0, 0),
      New_View 2 (0, 0, 0, 0), Add_Child 1 2,
      New_View 3 (0, 0, 0, 0), Add_Child 1 3,
      New_View 4 (0, 0, 0, 0), Add_Child 2 4]"

definition GetIndexOf_test_tree :: view_store where
  "GetIndexOf_test_tree =
     (\<lambda>a. if a = 1 then Some \<lparr> parent = None, children = [2, 3], bounds = (0, 0, 0, 0) \<rparr>
          else if a = 2 then Some \<lparr> parent = Some 1, children = [4], bounds = (0, 0, 0, 0) \<rparr>
          else if a = 3 then Some \<lparr> parent = Some 1, children = [], bounds = (0, 0, 0, 0) \<rparr>
          else if a = 4 then Some \<lparr> parent = Some 2, children = [], bounds = (0, 0, 0, 0) \<rparr>
          else None)"

text \<open>The tree the test ReorderChildren builds, and the positions of views in a result.\<close>

definition ReorderChildren_test_ops :: "view_op list" where
  "ReorderChildren_test_ops =
     [New_View 1 (0, 0, 0, 0),
      New_View 2 (0, 0, 0, 0), Add_Child 1 2,
      New_View 3 (0, 0, 0, 0), Add_Child 2 3,
      New_View 4 (0, 0, 0, 0), Add_Child 2 4,
      New_View 5 (0, 0, 0, 0), Add_Child 2 5]"

definition child_positions :: "view_store option \<Rightarrow> nat \<Rightarrow> nat list \<Rightarrow> int option list" where
  "child_positions r v cs =
     (case r of None \<Rightarrow> [] | Some s \<Rightarrow> map (\<lambda>c. GetIndexOf s v (Some c)) cs)"

subsection \<open>Converting points between views\<close>

text \<open>
  Modelled from the spec: coordinate conversion between views
  (\<open>View::ConvertPointToView\<close>). Neither ui/views/view.h, whose \<open>ui::View\<close> the
  constructors of event.cc call, nor the view.cc of the \<open>views::View\<close> that
  views/view\_unittest.cc tests is among the sources. The spec speaks of one conversion
  between nested transformed views that composes the transforms and offsets of the views
  in between, and cites the test ConvertPointToViewWithTransform for it; the definitions
  below follow these words and reproduce the expectations of that test. That the function
  event.cc calls computes the same is the spec's word, not something the sources show.
  A view's transform is an affine map; a point of a view is taken to its parent's
  coordinates by the view's transform followed by the offset of the view's origin, and
  back by undoing the two; a conversion goes up from the source to the root of the
  hierarchy and down to the target, rounding down to whole pixels after each direction.
\<close>

record Transform =
  m_xx :: rat
  m_xy :: rat
  m_yx :: rat
  m_yy :: rat
  m_tx :: rat
  m_ty :: rat

definition Transform_identity :: Transform where
  "Transform_identity = \<lparr> m_xx = 1, m_xy = 0, m_yx = 0, m_yy = 1, m_tx = 0, m_ty = 0 \<rparr>"

definition SetScale :: "rat \<Rightarrow> rat \<Rightarrow> Transform \<Rightarrow> Transform" where
  "SetScale sx sy t = t\<lparr>m_xx := sx, m_yy := sy\<rparr>"

definition TransformPoint :: "Transform \<Rightarrow> rat \<times> rat \<Rightarrow> rat \<times> rat" where
  "TransformPoint t p =
     (m_xx t * fst p + m_xy t * snd p + m_tx t, m_yx t * fst p + m_yy t * snd p + m_ty t)"

definition TransformPointReverse :: "Transform \<Rightarrow> rat \<times> rat \<Rightarrow> rat \<times> rat" where
  "TransformPointReverse t p =
     (let det = m_xx t * m_yy t - m_xy t * m_yx t;
          x = fst p - m_tx t;
          y = snd p - m_ty t
      in if det = 0 then p
         else ((m_yy t * x - m_xy t * y) / det, (m_xx t * y - m_yx t * x) / det))"

record PlacedView = View +
  view_transform :: Transform

type_synonym placed_store = "nat \<Rightarrow> PlacedView option"

definition to_parent :: "PlacedView \<Rightarrow> rat \<times> rat \<Rightarrow> rat \<times> rat" where
  "to_parent v p =
     (case bounds v of (x, y, w, h) \<Rightarrow>
        (case TransformPoint (view_transform v) p of (px, py) \<Rightarrow>
           (px + of_int x, py + of_int y)))"

definition from_parent :: "PlacedView \<Rightarrow> rat \<times> rat \<Rightarrow> rat \<times> rat" where
  "from_parent v p =
     (case bounds v of (x, y, w, h) \<Rightarrow>
        TransformPointReverse (view_transform v) (fst p - of_int x, snd p - of_int y))"

partial_function (option) GetHierarchyRoot :: "placed_store \<Rightarrow> nat \<Rightarrow> nat option" where
  "GetHierarchyRoot s v =
     (case s v of
        None \<Rightarrow> None
      | Some vv \<Rightarrow> (case parent vv of None \<Rightarrow> Some v | Some q \<Rightarrow> GetHierarchyRoot s q))"

partial_function (option) ConvertPointForAncestor ::
  "placed_store \<Rightarrow> nat \<Rightarrow> nat \<Rightarrow> rat \<times> rat \<Rightarrow> (rat \<times> rat) option" where
  "ConvertPointForAncestor s ancestor self p =
     (if self = ancestor then Some p
      else (case s self of
              None \<Rightarrow> None
            | Some v \<Rightarrow>
                (case parent v of
                   None \<Rightarrow> None
                 | Some q \<Rightarrow> ConvertPointForAncestor s ancestor q (to_parent v p))))"

partial_function (option) ConvertPointFromAncestor ::
  "placed_store \<Rightarrow> nat \<Rightarrow> nat \<Rightarrow> rat \<times> rat \<Rightarrow> (rat \<times> rat) option" where
  "ConvertPointFromAncestor s ancestor self p =
     (if self = ancestor then Some p
      else (case s self of
              None \<Rightarrow> None
            | Some v \<Rightarrow>
                (case parent v of
                   None \<Rightarrow> None
                 | Some q \<Rightarrow>
                     Option.bind (ConvertPointFromAncestor s ancestor q p)
                       (\<lambda>p'. Some (from_parent v p')))))"

definition AsPoint :: "rat \<times> rat \<Rightarrow> int \<times> int" where
  "AsPoint p = (\<lfloor>fst p\<rfloor>, \<lfloor>snd p\<rfloor>)"

definition of_Point :: "int \<times> int \<Rightarrow> rat \<times> rat" where
  "of_Point p = (of_int (fst p), of_int (snd p))"

definition ConvertPointToView ::
  "placed_store \<Rightarrow> nat \<Rightarrow> nat \<Rightarrow> int \<times> int \<Rightarrow> (int \<times> int) option" where
  "ConvertPointToView s source target p =
     (if source = target then Some p
      else
        (case GetHierarchyRoot s target of
           None \<Rightarrow> None
         | Some top_view \<Rightarrow>
             (case ConvertPointForAncestor s top_view source (of_Point p) of
                None \<Rightarrow> None
              | Some up \<Rightarrow>
                  (case ConvertPointFromAncestor s top_view target (of_Point (AsPoint up)) of
                     None \<Rightarrow> None
                   | Some down \<Rightarrow> Some (AsPoint down)))))"

text \<open>The conversion as the constructor of a located event uses it: a point that cannot be
  converted (the views are in different hierarchies) stays as it is.\<close>

definition ConvertPointToView_in :: "placed_store \<Rightarrow> nat \<Rightarrow> nat \<Rightarrow> int \<times> int \<Rightarrow> int \<times> int" where
  "ConvertPointToView_in s source target p =
     (case ConvertPointToView s source target p of None \<Rightarrow> p | Some q \<Rightarrow> q)"

text \<open>The hierarchy of the test: top_view (1), child (2), child_child (3).\<close>

definition transform_test_views :: placed_store where
  "transform_test_views =
     (\<lambda>a. if a = 1 then Some \<lparr> parent = None, children = [2], bounds = (0, 0, 1000, 1000),
                               view_transform = Transform_identity \<rparr>
          else if a = 2 then Some \<lparr> parent = Some 1, children = [3], bounds = (7, 19, 500, 500),
                               view_transform = SetScale 3 4 Transform_identity \<rparr>
          else if a = 3 then Some \<lparr> parent = Some 2, children = [], bounds = (17, 13, 100, 100),
                               view_transform = SetScale 5 7 Transform_identity \<rparr>
          else None)"

text \<open>
  The way from a view up to one of its ancestors: the views passed, the view itself first
  and the ancestor's child last. The ancestor is not on the list.
\<close>

fun view_chain :: "placed_store \<Rightarrow> nat \<Rightarrow> PlacedView list \<Rightarrow> nat \<Rightarrow> bool" where
  "view_chain s v [] a = (v = a)"
| "view_chain s v (x # xs) a =
     (v \<noteq> a \<and> s v = Some x \<and> (case parent x of None \<Rightarrow> False | Some q \<Rightarrow> view_chain s q xs a))"

text \<open>The two children of the test's hierarchy.\<close>

definition view_2 :: PlacedView where
  "view_2 = \<lparr> parent = Some 1, children = [3], bounds = (7, 19, 500, 500),
              view_transform = SetScale 3 4 Transform_identity \<rparr>"

definition view_3 :: PlacedView where
  "view_3 = \<lparr> parent = Some 2, children = [], bounds = (17, 13, 100, 100),
              view_transform = SetScale 5 7 Transform_identity \<rparr>"

section \<open>Properties of the GL surface factory\<close>

text \<open>
  C9. For every size, CreateOffscreenGLSurface returns NULL when software is true, and
  the process is as it was: no driver call was made and the selected implementation was
  not read (the answer is the same for every driver). CreateViewGLSurface is
  CreateOffscreenGLSurface at size 1x1 whatever the window, so it returns NULL too when
  software is true.
\<close>

theorem CreateGLSurface_software_null:
  "CreateOffscreenGLSurface P d True sz s = Inr (None, s)
   \<and> CreateViewGLSurface P d software window s
       = CreateOffscreenGLSurface P d software (1, 1) s
   \<and> CreateViewGLSurface P d True window s = Inr (None, s)"
  by (simp add: CreateViewGLSurface_def CreateOffscreenGLSurface_def)

theorem CreateGLSurface_software_null_witness:
  "CreateOffscreenGLSurface (gl_ok_platform kGLImplementationDesktopGL) True True (640, 480)
       gl_fresh = Inr (None, gl_fresh)
   \<and> CreateViewGLSurface (gl_ok_platform kGLImplementationDesktopGL) True False (7::nat)
       gl_fresh
     = Inr (Some (PbufferGLSurfaceCGL (1, 1)),
            \<lparr> initialized = False, platform = 1,
              gl_trace = [Called_GetGLImplementation,
                          Called_PbufferGLSurfaceCGL_Initialize] \<rparr>)
   \<and> CreateViewGLSurface (gl_ok_platform kGLImplementationDesktopGL) True True (7::nat)
       gl_fresh = Inr (None, gl_fresh)"
  using CreateGLSurface_software_null
    [of "gl_ok_platform kGLImplementationDesktopGL" True "(640, 480)" gl_fresh False "7::nat"]
  by (simp add: CreateOffscreenGLSurface_def gl_ok_platform_def gl_fresh_def gl_call_def
      gl_note_def)

lemma InitializeOneOff_initialized:
  "initialized s \<Longrightarrow> InitializeOneOff P s = (True, s)"
  by (simp add: InitializeOneOff_def)

lemma InitializeOneOff_true_sets:
  "InitializeOneOff P s = (True, s') \<Longrightarrow> initialized s'"
  by (auto simp: InitializeOneOff_def gl_call_def gl_note_def
      split: if_splits prod.splits bool.splits GLImplementation.splits)

lemma InitializeOneOff_times_initialized:
  "initialized s \<Longrightarrow> InitializeOneOff_times P n s = (replicate n True, s)"
  by (induction n) (simp_all add: InitializeOneOff_initialized)

lemma InitializeOneOff_inits_initialized:
  "initialized s \<Longrightarrow> InitializeOneOff_inits P n s = replicate n False"
  by (induction n) (simp_all add: InitializeOneOff_initialized)

lemma InitializeOneOff_inits_once:
  "length (filter id (InitializeOneOff_inits P n s)) \<le> 1"
proof (induction n arbitrary: s)
  case 0
  show ?case by simp
next
  case (Suc n)
  obtain r s1 where step: "InitializeOneOff P s = (r, s1)"
    by (cases "InitializeOneOff P s")
  show ?case
  proof (cases r)
    case True
    with step have "initialized s1" by (simp add: InitializeOneOff_true_sets)
    then have "InitializeOneOff_inits P n s1 = replicate n False"
      by (rule InitializeOneOff_inits_initialized)
    with step show ?thesis by simp
  next
    case False
    with step Suc.IH [of s1] show ?thesis by simp
  qed
qed

text \<open>
  C8. Once a call of InitializeOneOff has returned true, every later call returns true
  and leaves the process as it finds it, whatever happened to the driver and the trace
  in between: it makes no driver call, so neither the GL bindings nor the platform
  surface are initialised again. So do any number of calls in a row. And in any run of
  calls, from any state, at most one call returns true after having called the driver.
\<close>

theorem InitializeOneOff_idempotent:
  assumes "InitializeOneOff P s = (True, s')"
  shows "initialized s'
    \<and> (\<forall>p tr. InitializeOneOff P (s'\<lparr>platform := p, gl_trace := tr\<rparr>)
                 = (True, s'\<lparr>platform := p, gl_trace := tr\<rparr>))
    \<and> (\<forall>n. InitializeOneOff_times P n s' = (replicate n True, s'))
    \<and> (\<forall>n s0. length (filter id (InitializeOneOff_inits P n s0)) \<le> 1)"
proof -
  from assms have i: "initialized s'" by (rule InitializeOneOff_true_sets)
  have again: "\<forall>p tr. InitializeOneOff P (s'\<lparr>platform := p, gl_trace := tr\<rparr>)
                 = (True, s'\<lparr>platform := p, gl_trace := tr\<rparr>)"
    using i by (simp add: InitializeOneOff_initialized)
  have times: "\<forall>n. InitializeOneOff_times P n s' = (replicate n True, s')"
    using i by (simp add: InitializeOneOff_times_initialized)
  have once: "\<forall>n s0. length (filter id (InitializeOneOff_inits P n s0)) \<le> 1"
    by (intro allI InitializeOneOff_inits_once)
  from i again times once show ?thesis by blast
qed

theorem InitializeOneOff_idempotent_witness:
  "InitializeOneOff (gl_ok_platform kGLImplementationDesktopGL) gl_fresh
     = (True, \<lparr> initialized = True, platform = 2,
                 gl_trace = [Called_InitializeRequestedGLBindings, Called_GetGLImplementation,
                             Called_GLSurfaceCGL_InitializeOneOff] \<rparr>)
   \<and> InitializeOneOff_times (gl_ok_platform kGLImplementationDesktopGL) 3
        \<lparr> initialized = True, platform = 2,
          gl_trace = [Called_InitializeRequestedGLBindings, Called_GetGLImplementation,
                      Called_GLSurfaceCGL_InitializeOneOff] \<rparr>
     = ([True, True, True],
        \<lparr> initialized = True, platform = 2,
          gl_trace = [Called_InitializeRequestedGLBindings, Called_GetGLImplementation,
                      Called_GLSurfaceCGL_InitializeOneOff] \<rparr>)
   \<and> InitializeOneOff_inits (gl_ok_platform kGLImplementationDesktopGL) 3 gl_fresh
     = [True, False, False]"
proof -
  have first: "InitializeOneOff (gl_ok_platform kGLImplementationDesktopGL) gl_fresh
     = (True, \<lparr> initialized = True, platform = 2,
                 gl_trace = [Called_InitializeRequestedGLBindings, Called_GetGLImplementation,
                             Called_GLSurfaceCGL_InitializeOneOff] \<rparr>)"
    by (simp add: InitializeOneOff_def gl_ok_platform_def gl_fresh_def gl_call_def gl_note_def)
  note after = InitializeOneOff_idempotent [OF first]
  from after have three: "InitializeOneOff_times (gl_ok_platform kGLImplementationDesktopGL) 3
        \<lparr> initialized = True, platform = 2,
          gl_trace = [Called_InitializeRequestedGLBindings, Called_GetGLImplementation,
                      Called_GLSurfaceCGL_InitializeOneOff] \<rparr>
     = (replicate 3 True,
        \<lparr> initialized = True, platform = 2,
          gl_trace = [Called_InitializeRequestedGLBindings, Called_GetGLImplementation,
                      Called_GLSurfaceCGL_InitializeOneOff] \<rparr>)"
    by blast
  have inits: "InitializeOneOff_inits (gl_ok_platform kGLImplementationDesktopGL) 3 gl_fresh
     = [True, False, False]"
    by (simp add: numeral_3_eq_3 InitializeOneOff_def gl_ok_platform_def gl_fresh_def
        gl_call_def gl_note_def)
  from first three inits show ?thesis by (simp add: numeral_3_eq_3)
qed

text \<open>
  A call that fails leaves the flag unset, so the next call goes through the driver
  again: only a call that returned true ends the initialisation for good.
\<close>

lemma InitializeOneOff_retries_after_failure:
  "InitializeOneOff_times gl_cgl_fails_platform 2 gl_fresh
     = ([False, False],
        \<lparr> initialized = False, platform = 4,
          gl_trace =
            [Called_InitializeRequestedGLBindings, Called_GetGLImplementation,
             Called_GLSurfaceCGL_InitializeOneOff,
             Logged_ERROR ''GLSurfaceCGL::InitializeOneOff failed.'',
             Called_InitializeRequestedGLBindings, Called_GetGLImplementation,
             Called_GLSurfaceCGL_InitializeOneOff,
             Logged_ERROR ''GLSurfaceCGL::InitializeOneOff failed.''] \<rparr>)"
  by (simp add: numeral_2_eq_2 InitializeOneOff_def gl_cgl_fails_platform_def gl_ok_platform_def
      gl_fresh_def gl_call_def gl_note_def)

section \<open>Properties of the bitmap platform device\<close>

lemmas cg_defs = allocPixels_def CGBitmapContextCreate_def CGContextForData_def
  CGContextRetain_def CGContextRelease_def new_BitmapPlatformDeviceData_def cg_note_def
  cg_new_events_def alloc_failed_def context_create_failed_def device_constructed_def
  context_created_def

lemma Create_result:
  "\<exists>rv s'. Create E ctx width height is_opaque s = Inr (rv, s')
     \<and> (rv = None) =
         (list_ex alloc_failed (cg_new_events s s')
          \<or> list_ex context_create_failed (cg_new_events s s'))
     \<and> (rv = None) = (\<not> list_ex device_constructed (cg_new_events s s'))"
  by (cases ctx)
    (auto simp: Create_def cg_defs Let_def split: prod.splits option.splits if_splits)

lemma CreateWithData_result:
  "\<exists>ctx s1 rv s2 s3.
      CreateWithData_inner E data width height s = (ctx, s1)
      \<and> Create E ctx width height is_opaque s1 = Inr (rv, s2)
      \<and> CreateWithData E data width height is_opaque s = Inr (rv, s3)"
proof -
  obtain ctx s1 where inner: "CreateWithData_inner E data width height s = (ctx, s1)"
    by (cases "CreateWithData_inner E data width height s")
  from Create_result [of E ctx width height is_opaque s1]
  obtain rv s2 where cr: "Create E ctx width height is_opaque s1 = Inr (rv, s2)"
    by blast
  from inner cr
  have "CreateWithData E data width height is_opaque s
          = Inr (rv, (case ctx of None \<Rightarrow> s2 | Some c \<Rightarrow> CGContextRelease ctx s2))"
    by (simp add: CreateWithData_def CreateWithData_inner_def)
  with inner cr show ?thesis by blast
qed

lemma Create_alloc_fails:
  "\<not> allocPixels_ok E (cg_trace s) width height \<Longrightarrow>
   Create E ctx width height is_opaque s
     = Inr (None, cg_note (Ev_allocPixels width height False) s)"
  by (simp add: Create_def allocPixels_def)

lemma Create_context_fails:
  "allocPixels_ok E (cg_trace s) width height \<Longrightarrow>
   \<not> Create_context_answer E width height is_opaque s \<Longrightarrow>
   \<exists>s'. Create E None width height is_opaque s = Inr (None, s')
      \<and> \<not> list_ex device_constructed (cg_new_events s s')
      \<and> cg_contexts s' = cg_contexts s"
  by (auto simp: Create_def cg_defs Let_def Create_context_answer_def
      Create_trace_at_context_def)

lemma Create_own_context:
  "allocPixels_ok E (cg_trace s) width height \<Longrightarrow>
   Create_context_answer E width height is_opaque s \<Longrightarrow>
   \<exists>s'. Create E None width height is_opaque s
          = Inr (Some \<lparr> dev_data =
                         \<lparr> bitmap_context = Some (Suc (cg_next s)), config_dirty = True,
                           transform = SkMatrix_identity,
                           clip_region = SkRegion_rect 0 0 (ucast (scast width :: size_t))
                                           (ucast (scast height :: size_t)) \<rparr>,
                       dev_bitmap =
                         \<lparr> bm_width = width, bm_height = height,
                           bm_pixels = Some (cg_next s), bm_is_opaque = is_opaque \<rparr> \<rparr>, s')
      \<and> cg_contexts s' (Suc (cg_next s))
          = Some \<lparr> cg_data = Some (cg_next s), cg_width = scast width,
                   cg_height = scast height, cg_retain_count = 1 \<rparr>
      \<and> list_ex device_constructed (cg_new_events s s')"
  by (auto simp: Create_def cg_defs Let_def Create_context_answer_def
      Create_trace_at_context_def CGBitmapContextGetWidth_def CGBitmapContextGetHeight_def)

lemma Create_given_context:
  "allocPixels_ok E (cg_trace s) width height \<Longrightarrow>
   \<exists>d s'. Create E (Some c) width height is_opaque s
          = Inr (Some \<lparr> dev_data = d,
                       dev_bitmap =
                         \<lparr> bm_width = width, bm_height = height,
                           bm_pixels = CGBitmapContextGetData (Some c) s,
                           bm_is_opaque = is_opaque \<rparr> \<rparr>, s')
      \<and> bitmap_context d = Some c
      \<and> list_ex device_constructed (cg_new_events s s')"
  by (auto simp: Create_def cg_defs Let_def CGBitmapContextGetData_def
      split: option.splits)

lemma Create_null_iff_platform:
  "\<exists>rv s'. Create E ctx width height is_opaque s = Inr (rv, s')
     \<and> (rv = None) =
         (\<not> allocPixels_ok E (cg_trace s) width height
          \<or> (ctx = None \<and> \<not> Create_context_answer E width height is_opaque s))"
proof (cases "allocPixels_ok E (cg_trace s) width height")
  case False
  then show ?thesis by (simp add: Create_alloc_fails)
next
  case True
  show ?thesis
  proof (cases ctx)
    case (Some c)
    with True Create_given_context [OF True, of c is_opaque] show ?thesis by auto
  next
    case None
    show ?thesis
    proof (cases "Create_context_answer E width height is_opaque s")
      case True
      with \<open>allocPixels_ok E (cg_trace s) width height\<close> None
        Create_own_context [of E s width height is_opaque]
      show ?thesis by auto
    next
      case False
      with \<open>allocPixels_ok E (cg_trace s) width height\<close> None
        Create_context_fails [of E s width height is_opaque]
      show ?thesis by auto
    qed
  qed
qed

lemma CreateWithData_no_data:
  "CreateWithData E None width height is_opaque s = Create E None width height is_opaque s"
  by (simp add: CreateWithData_def split: sum.splits prod.splits)

lemma CreateWithData_data_context_fails:
  "\<not> CreateWithData_context_answer E (Some a) width height s \<Longrightarrow>
   CreateWithData E (Some a) width height is_opaque s
     = Create E None width height is_opaque
         (cg_note (Ev_CGBitmapContextCreate (Some a) (scast width) (scast height) 8
                     (scast (width * 4)) None) s)"
  by (simp add: CreateWithData_def CreateWithData_context_answer_def CGContextForData_def
      CGBitmapContextCreate_def split: sum.splits prod.splits)

lemma CreateWithData_data_context:
  "CreateWithData_context_answer E (Some a) width height s \<Longrightarrow>
   \<exists>rv s'. CreateWithData E (Some a) width height is_opaque s = Inr (rv, s')
     \<and> (rv = None) =
         (\<not> allocPixels_ok E
              (cg_trace s @
               [Ev_CGBitmapContextCreate (Some a) (scast width) (scast height) 8
                  (scast (width * 4)) (Some (cg_next s)),
                Ev_CGContextTranslateCTM (cg_next s) 0 (sint height),
                Ev_CGContextScaleCTM (cg_next s) 1 (- 1)]) width height)
     \<and> (\<forall>dev. rv = Some dev \<longrightarrow>
           bitmap_context (dev_data dev) = Some (cg_next s)
           \<and> bm_pixels (dev_bitmap dev) = Some a)"
  by (auto simp: CreateWithData_def CreateWithData_context_answer_def Create_def cg_defs
      Let_def CGBitmapContextGetData_def split: option.splits prod.splits)


lemma Create_full:
  "\<exists>rv s'. Create E ctx width height is_opaque s = Inr (rv, s')
     \<and> (rv = None) =
         (\<not> allocPixels_ok E (cg_trace s) width height
          \<or> (ctx = None \<and> \<not> Create_context_answer E width height is_opaque s))
     \<and> (rv = None) =
         (list_ex alloc_failed (cg_new_events s s')
          \<or> list_ex context_create_failed (cg_new_events s s'))
     \<and> (rv = None) = (\<not> list_ex device_constructed (cg_new_events s s'))
     \<and> (\<forall>dev. rv = Some dev \<longrightarrow>
           bitmap_context (dev_data dev)
             = (case ctx of None \<Rightarrow> Some (Suc (cg_next s)) | Some c \<Rightarrow> Some c)
           \<and> dev_bitmap dev
             = \<lparr> bm_width = width, bm_height = height,
                 bm_pixels = (case ctx of
                                None \<Rightarrow> Some (cg_next s)
                              | Some c \<Rightarrow> CGBitmapContextGetData ctx s),
                 bm_is_opaque = is_opaque \<rparr>)"
proof -
  from Create_result [of E ctx width height is_opaque s]
  obtain rv s' where c: "Create E ctx width height is_opaque s = Inr (rv, s')"
    and ev: "(rv = None) =
         (list_ex alloc_failed (cg_new_events s s')
          \<or> list_ex context_create_failed (cg_new_events s s'))"
    and made: "(rv = None) = (\<not> list_ex device_constructed (cg_new_events s s'))"
    by blast
  from Create_null_iff_platform [of E ctx width height is_opaque s] c
  have pl: "(rv = None) =
         (\<not> allocPixels_ok E (cg_trace s) width height
          \<or> (ctx = None \<and> \<not> Create_context_answer E width height is_opaque s))"
    by auto
  have dev: "bitmap_context (dev_data dev)
             = (case ctx of None \<Rightarrow> Some (Suc (cg_next s)) | Some c \<Rightarrow> Some c)
           \<and> dev_bitmap dev
             = \<lparr> bm_width = width, bm_height = height,
                 bm_pixels = (case ctx of
                                None \<Rightarrow> Some (cg_next s)
                              | Some c \<Rightarrow> CGBitmapContextGetData ctx s),
                 bm_is_opaque = is_opaque \<rparr>" if some: "rv = Some dev" for dev
  proof (cases ctx)
    case None
    from some pl None have ok: "allocPixels_ok E (cg_trace s) width height"
      and ans: "Create_context_answer E width height is_opaque s" by auto
    from Create_own_context [OF ok ans] c None some show ?thesis by auto
  next
    case (Some k)
    from some pl have ok: "allocPixels_ok E (cg_trace s) width height" by auto
    from Create_given_context [OF ok, of k is_opaque] c Some some show ?thesis by auto
  qed
  from c ev made pl dev show ?thesis by blast
qed

text \<open>
  C2. Create always returns (it never stops on an assertion), and what it returns is a
  device or NULL: there is no other failure value. It returns NULL exactly when the
  platform fails the pixel allocation or, no context having been given, fails
  CGBitmapContextCreate over the new pixels; that is exactly when one of the two failures
  is among the calls it made, and exactly when no device and no device data were
  constructed. Otherwise it returns a device of the given size over the allocated
  pixels, holding the context it created, or the given context and its data.
  CreateWithData without data is Create without a context. With data it asks for a
  context over the data: when the platform fails that, it is Create without a context
  after the failed call; when the platform gives one, it returns NULL exactly when the
  platform then fails the pixel allocation, and otherwise a device holding that context
  over the given data. In every case CreateWithData returns what its call of Create
  returns.
\<close>

theorem Create_null_checks:
  "(\<exists>rv s'. Create E ctx width height is_opaque s = Inr (rv, s')
      \<and> (rv = None) =
          (\<not> allocPixels_ok E (cg_trace s) width height
           \<or> (ctx = None \<and> \<not> Create_context_answer E width height is_opaque s))
      \<and> (rv = None) =
          (list_ex alloc_failed (cg_new_events s s')
           \<or> list_ex context_create_failed (cg_new_events s s'))
      \<and> (rv = None) = (\<not> list_ex device_constructed (cg_new_events s s'))
      \<and> (\<forall>dev. rv = Some dev \<longrightarrow>
            bitmap_context (dev_data dev)
              = (case ctx of None \<Rightarrow> Some (Suc (cg_next s)) | Some c \<Rightarrow> Some c)
            \<and> dev_bitmap dev
              = \<lparr> bm_width = width, bm_height = height,
                  bm_pixels = (case ctx of
                                 None \<Rightarrow> Some (cg_next s)
                               | Some c \<Rightarrow> CGBitmapContextGetData ctx s),
                  bm_is_opaque = is_opaque \<rparr>))
   \<and> CreateWithData E None width height is_opaque s
       = Create E None width height is_opaque s
   \<and> (\<not> CreateWithData_context_answer E (Some a) width height s \<longrightarrow>
        CreateWithData E (Some a) width height is_opaque s
          = Create E None width height is_opaque
              (cg_note (Ev_CGBitmapContextCreate (Some a) (scast width) (scast height) 8
                          (scast (width * 4)) None) s))
   \<and> (CreateWithData_context_answer E (Some a) width height s \<longrightarrow>
        (\<exists>rv s'. CreateWithData E (Some a) width height is_opaque s = Inr (rv, s')
           \<and> (rv = None) =
               (\<not> allocPixels_ok E
                    (cg_trace s @
                     [Ev_CGBitmapContextCreate (Some a) (scast width) (scast height) 8
                        (scast (width * 4)) (Some (cg_next s)),
                      Ev_CGContextTranslateCTM (cg_next s) 0 (sint height),
                      Ev_CGContextScaleCTM (cg_next s) 1 (- 1)]) width height)
           \<and> (\<forall>dev. rv = Some dev \<longrightarrow>
                 bitmap_context (dev_data dev) = Some (cg_next s)
                 \<and> bm_pixels (dev_bitmap dev) = Some a)))
   \<and> (\<exists>inner s1 rv s2 s3.
        CreateWithData_inner E data width height s = (inner, s1)
        \<and> Create E inner width height is_opaque s1 = Inr (rv, s2)
        \<and> CreateWithData E data width height is_opaque s = Inr (rv, s3))"
  using Create_full [of E ctx width height is_opaque s]
    CreateWithData_no_data [of E width height is_opaque s]
    CreateWithData_data_context_fails [of E a width height s is_opaque]
    CreateWithData_data_context [of E a width height s is_opaque]
    CreateWithData_result [of E data width height s is_opaque]
  by (intro conjI impI) assumption+

theorem Create_null_checks_witness:
  "(\<exists>s'. Create (cg_platform_of True True True) None 4 3 True cg_fresh
           = Inr (Some \<lparr> dev_data =
                          \<lparr> bitmap_context = Some 101, config_dirty = True,
                            transform = SkMatrix_identity,
                            clip_region = SkRegion_rect 0 0 4 3 \<rparr>,
                        dev_bitmap =
                          \<lparr> bm_width = 4, bm_height = 3, bm_pixels = Some 100,
                            bm_is_opaque = True \<rparr> \<rparr>, s')
      \<and> list_ex device_constructed (cg_new_events cg_fresh s')
      \<and> \<not> list_ex alloc_failed (cg_new_events cg_fresh s')
      \<and> \<not> list_ex context_create_failed (cg_new_events cg_fresh s'))
   \<and> (\<exists>s'. Create (cg_platform_of True False True) None 4 3 True cg_fresh = Inr (None, s')
      \<and> list_ex context_create_failed (cg_new_events cg_fresh s')
      \<and> \<not> list_ex device_constructed (cg_new_events cg_fresh s'))
   \<and> (\<exists>s'. Create (cg_platform_of False True True) None 4 3 True cg_fresh = Inr (None, s')
      \<and> list_ex alloc_failed (cg_new_events cg_fresh s')
      \<and> \<not> list_ex device_constructed (cg_new_events cg_fresh s'))"
proof -
  let ?ok = "cg_platform_of True True True"
  let ?nc = "cg_platform_of True False True"
  let ?na = "cg_platform_of False True True"
  have answers:
    "allocPixels_ok ?ok (cg_trace cg_fresh) 4 3" "Create_context_answer ?ok 4 3 True cg_fresh"
    "allocPixels_ok ?nc (cg_trace cg_fresh) 4 3" "\<not> Create_context_answer ?nc 4 3 True cg_fresh"
    "\<not> allocPixels_ok ?na (cg_trace cg_fresh) 4 3"
    by (simp_all add: cg_platform_of_def Create_context_answer_def)
  have a: "\<exists>s'. Create ?ok None 4 3 True cg_fresh
           = Inr (Some \<lparr> dev_data =
                          \<lparr> bitmap_context = Some 101, config_dirty = True,
                            transform = SkMatrix_identity,
                            clip_region = SkRegion_rect 0 0 4 3 \<rparr>,
                        dev_bitmap =
                          \<lparr> bm_width = 4, bm_height = 3, bm_pixels = Some 100,
                            bm_is_opaque = True \<rparr> \<rparr>, s')
      \<and> list_ex device_constructed (cg_new_events cg_fresh s')
      \<and> \<not> list_ex alloc_failed (cg_new_events cg_fresh s')
      \<and> \<not> list_ex context_create_failed (cg_new_events cg_fresh s')"
  proof -
    from Create_null_checks [of ?ok None 4 3 True cg_fresh] obtain rv s' where
      c: "Create ?ok None 4 3 True cg_fresh = Inr (rv, s')" and
      pl: "(rv = None) =
          (\<not> allocPixels_ok ?ok (cg_trace cg_fresh) 4 3
           \<or> (None = (None :: CGContextRef) \<and> \<not> Create_context_answer ?ok 4 3 True cg_fresh))"
      and ev: "(rv = None) =
          (list_ex alloc_failed (cg_new_events cg_fresh s')
           \<or> list_ex context_create_failed (cg_new_events cg_fresh s'))"
      and made: "(rv = None) = (\<not> list_ex device_constructed (cg_new_events cg_fresh s'))"
      and dev: "\<forall>dev. rv = Some dev \<longrightarrow>
            bitmap_context (dev_data dev)
              = (case (None :: CGContextRef) of
                   None \<Rightarrow> Some (Suc (cg_next cg_fresh)) | Some c \<Rightarrow> Some c)
            \<and> dev_bitmap dev
              = \<lparr> bm_width = 4, bm_height = 3,
                  bm_pixels = (case (None :: CGContextRef) of
                                 None \<Rightarrow> Some (cg_next cg_fresh)
                               | Some c \<Rightarrow> CGBitmapContextGetData None cg_fresh),
                  bm_is_opaque = True \<rparr>"
      by blast
    from pl answers obtain d where some: "rv = Some d" by auto
    have "Create ?ok None 4 3 True cg_fresh
           = Inr (Some \<lparr> dev_data =
                          \<lparr> bitmap_context = Some 101, config_dirty = True,
                            transform = SkMatrix_identity,
                            clip_region = SkRegion_rect 0 0 4 3 \<rparr>,
                        dev_bitmap =
                          \<lparr> bm_width = 4, bm_height = 3, bm_pixels = Some 100,
                            bm_is_opaque = True \<rparr> \<rparr>,
                  snd (projr (Create ?ok None 4 3 True cg_fresh)))"
      by (simp add: Create_def cg_defs cg_platform_of_def cg_fresh_def Let_def
          CGBitmapContextGetWidth_def CGBitmapContextGetHeight_def)
    with c some ev made show ?thesis by auto
  qed
  have b: "\<exists>s'. Create ?nc None 4 3 True cg_fresh = Inr (None, s')
      \<and> list_ex context_create_failed (cg_new_events cg_fresh s')
      \<and> \<not> list_ex device_constructed (cg_new_events cg_fresh s')"
  proof -
    from Create_null_checks [of ?nc None 4 3 True cg_fresh] obtain rv s' where
      c: "Create ?nc None 4 3 True cg_fresh = Inr (rv, s')" and
      pl: "(rv = None) =
          (\<not> allocPixels_ok ?nc (cg_trace cg_fresh) 4 3
           \<or> (None = (None :: CGContextRef) \<and> \<not> Create_context_answer ?nc 4 3 True cg_fresh))"
      and ev: "(rv = None) =
          (list_ex alloc_failed (cg_new_events cg_fresh s')
           \<or> list_ex context_create_failed (cg_new_events cg_fresh s'))"
      and made: "(rv = None) = (\<not> list_ex device_constructed (cg_new_events cg_fresh s'))"
      by blast
    from pl answers have n: "rv = None" by simp
    have "cg_trace (snd (projr (Create ?nc None 4 3 True cg_fresh)))
      = [Ev_allocPixels 4 3 True, Ev_eraseARGB 0 0 0 0, Ev_eraseARGB 255 0 255 128,
         Ev_CGBitmapContextCreate (Some 100) 4 3 8 16 None]"
      by (simp add: Create_def cg_defs cg_platform_of_def cg_fresh_def Let_def)
    with c have "cg_new_events cg_fresh s'
      = [Ev_allocPixels 4 3 True, Ev_eraseARGB 0 0 0 0, Ev_eraseARGB 255 0 255 128,
         Ev_CGBitmapContextCreate (Some 100) 4 3 8 16 None]"
      by (simp add: cg_new_events_def cg_fresh_def)
    then have "list_ex context_create_failed (cg_new_events cg_fresh s')"
      by (simp add: context_create_failed_def)
    with c n made show ?thesis by auto
  qed
  have c: "\<exists>s'. Create ?na None 4 3 True cg_fresh = Inr (None, s')
      \<and> list_ex alloc_failed (cg_new_events cg_fresh s')
      \<and> \<not> list_ex device_constructed (cg_new_events cg_fresh s')"
  proof -
    from Create_null_checks [of ?na None 4 3 True cg_fresh] obtain rv s' where
      c: "Create ?na None 4 3 True cg_fresh = Inr (rv, s')" and
      pl: "(rv = None) =
          (\<not> allocPixels_ok ?na (cg_trace cg_fresh) 4 3
           \<or> (None = (None :: CGContextRef) \<and> \<not> Create_context_answer ?na 4 3 True cg_fresh))"
      and ev: "(rv = None) =
          (list_ex alloc_failed (cg_new_events cg_fresh s')
           \<or> list_ex context_create_failed (cg_new_events cg_fresh s'))"
      and made: "(rv = None) = (\<not> list_ex device_constructed (cg_new_events cg_fresh s'))"
      by blast
    from pl answers have n: "rv = None" by simp
    have "cg_trace (snd (projr (Create ?na None 4 3 True cg_fresh)))
      = [Ev_allocPixels 4 3 False]"
      by (simp add: Create_def cg_defs cg_platform_of_def cg_fresh_def Let_def)
    with c have "cg_new_events cg_fresh s' = [Ev_allocPixels 4 3 False]"
      by (simp add: cg_new_events_def cg_fresh_def)
    then have "list_ex alloc_failed (cg_new_events cg_fresh s')"
      by (simp add: alloc_failed_def)
    with c n made show ?thesis by auto
  qed
  from a b c show ?thesis by blast
qed

text \<open>At a width of 2^30 the row length \<open>width * 4\<close> that the file computes is 0.\<close>

lemma CGContextForData_row_bytes_wrap:
  "(scast ((2 ^ 30 :: c_int) * 4) :: size_t) = 0"
  by simp


lemma DrawToNativeContext_present:
  "bitmap_context (dev_data dev) \<noteq> None \<Longrightarrow>
   \<exists>s'. DrawToNativeContext E dev target x y src_rect s = Inr (dev, s')
     \<and> cg_contexts s' = cg_contexts s
     \<and> \<not> list_ex context_created (cg_new_events s s')"
  by (auto simp: DrawToNativeContext_def Let_def cg_note_def cg_new_events_def
      context_created_def split: option.splits prod.splits)

lemma DrawToNativeContext_absent:
  "bitmap_context (dev_data dev) = None \<Longrightarrow>
   DrawToNativeContext E dev target x y src_rect s =
     (if SK_DEBUG E then Inl SkASSERT_failed
      else Inr (dev, snd (projr (DrawToNativeContext E dev target x y src_rect s))))
   \<and> (\<not> SK_DEBUG E \<longrightarrow>
        \<not> list_ex context_created
            (cg_new_events s (snd (projr (DrawToNativeContext E dev target x y src_rect s)))))"
  by (auto simp: DrawToNativeContext_def Let_def cg_note_def cg_new_events_def
      GetBitmapContext_def LoadConfig_def ReleaseBitmapContext_def CGContextRelease_def
      context_created_def split: option.splits prod.splits)










text \<open>
  When \<open>CreateWithData\<close> is given data and the context for it cannot be created, it
  calls \<open>Create\<close> without a context, which makes pixels and a context of its own: the
  device returned does not draw into the data.
\<close>

lemma CreateWithData_falls_back:
  "\<exists>dev s'. CreateWithData cg_platform_first_context_fails (Some 7) 4 3 False cg_fresh
              = Inr (Some dev, s')
     \<and> bm_pixels (dev_bitmap dev) = Some 100
     \<and> list_ex context_create_failed (cg_new_events cg_fresh s')"
  by (simp add: CreateWithData_def Create_def cg_defs cg_platform_first_context_fails_def
      cg_fresh_def Let_def)

section \<open>Properties of the ICU common-data entry point\<close>

lemma pad_to_one: "pad_to (Suc 0) n = 0"
  by (simp add: pad_to_def)

lemma pad_to_zero: "pad_to a 0 = 0"
  by (simp add: pad_to_def)

lemma pad_to_numeral:
  "pad_to (numeral a) (numeral b) = (numeral a - numeral b mod numeral a) mod numeral a"
  by (simp add: pad_to_def)

lemma pad_to_Suc2: "pad_to (Suc (Suc 0)) n = pad_to 2 n"
  by (simp add: numeral_2_eq_2)

lemma pad_to_Suc4: "pad_to (Suc (Suc (Suc (Suc 0)))) n = pad_to 4 n"
  by (simp add: numeral_Bit0 [of "num.Bit0 num.One"] numeral_2_eq_2)

lemma pad_to_2_step: "pad_to 2 (Suc (Suc n)) = pad_to 2 n"
  by (simp add: pad_to_def)

lemma pad_to_4_step: "pad_to 4 (Suc (Suc (Suc (Suc n)))) = pad_to 4 n"
proof -
  have "Suc (Suc (Suc (Suc n))) mod 4 = n mod 4"
    by (metis add_2_eq_Suc' mod_add_self2 numeral_Bit0 add.assoc)
  then show ?thesis by (simp add: pad_to_def)
qed

lemmas pad_simps = pad_to_one pad_to_zero pad_to_numeral pad_to_Suc2 pad_to_Suc4
  pad_to_2_step pad_to_4_step

lemmas icu_obj_defs = obj_ICU_Data_Header_def obj_ICU_Data_Header_flat_def obj_DataHeader_def
  obj_MappedData_def obj_UDataInfo_def U_ICUDATA_ENTRY_POINT_def U_ICUDATA_ENTRY_POINT_flat_def
  entry_UDataInfo_def entry_fakeNameAndData_def

text \<open>The byte image of an object has the object's size.\<close>

lemma length_c_bytes:
  "length (c_bytes be x) = c_size x"
  "length (c_members be off ms) + off = c_end off ms"
proof (induction be x and be off ms rule: c_bytes_c_members.induct)
  case (1 big_endian x)
  show ?case by (cases x) simp_all
qed simp_all

lemma nest_flatten: "nest (flatten h) = h"
  by (simp add: nest_def flatten_def flat_as_DataHeader_def)

lemma flatten_nest: "flatten (nest f) = f"
  by (simp add: nest_def flatten_def flat_as_DataHeader_def)

lemma icu_patch_shape:
  "map diff_path icu_patch
     = [''source/common/udata.cpp'', ''source/common/ucmndata.h'',
        ''source/stubdata/stubdata.c'']
   \<and> map (count_kind Del) icu_patch = [3, 0, 31]
   \<and> map (count_kind Add) icu_patch = [3, 14, 20]
   \<and> list_all hunk_consistent (concat (map diff_hunks icu_patch))"
  by (simp add: icu_patch_def udata_cpp_diff_def ucmndata_h_diff_def stubdata_c_diff_def
      one_line_hunk_def count_kind_def hunk_consistent_def)

lemma entry_point_bytes:
  "c_bytes be (obj_ICU_Data_Header_flat (U_ICUDATA_ENTRY_POINT_flat c))
   = c_bytes be (obj_ICU_Data_Header (U_ICUDATA_ENTRY_POINT c))"
  by (simp add: icu_obj_defs pad_simps split: prod.splits)

lemma entry_point_hdr_bytes:
  "take (c_size (obj_DataHeader (hdr (U_ICUDATA_ENTRY_POINT c))))
     (c_bytes be (obj_ICU_Data_Header_flat (U_ICUDATA_ENTRY_POINT_flat c)))
   = c_bytes be (obj_DataHeader (hdr (U_ICUDATA_ENTRY_POINT c)))"
  by (simp add: icu_obj_defs pad_simps split: prod.splits)

lemma entry_point_values:
  "headerSize (dataHeader (hdr (U_ICUDATA_ENTRY_POINT c))) = 32
   \<and> magic1 (dataHeader (hdr (U_ICUDATA_ENTRY_POINT c))) = 0xda
   \<and> magic2 (dataHeader (hdr (U_ICUDATA_ENTRY_POINT c))) = 0x27
   \<and> dataFormat (info (hdr (U_ICUDATA_ENTRY_POINT c)))
       = map (\<lambda>ch. of_nat (of_char ch)) ''ToCP''
   \<and> formatVersion (info (hdr (U_ICUDATA_ENTRY_POINT c))) = [1, 0, 0, 0]"
  by (simp add: U_ICUDATA_ENTRY_POINT_def entry_UDataInfo_def)

text \<open>
  C1 as stated fails on the patch: it is not one line replaced in one header. It touches
  three files, and the header ucmndata.h only gains lines.
\<close>

theorem icu_patch_not_one_line_in_one_header:
  "\<not> one_line_change_in_single_header icu_patch"
  by (simp add: one_line_change_in_single_header_def icu_patch_def)

text \<open>
  C1, amended. The patch touches udata.cpp (three lines replaced), ucmndata.h (fourteen
  lines added, none removed: the new typedef of ICU\_Data\_Header, which begins with the
  member \<open>DataHeader hdr\<close>) and stubdata.c (the private flat typedef removed, the
  initialiser nested). The flat and the nested structure carry the same members: each
  converts to the other and back. The entry point after the patch is the entry point
  before it, nested; read as a \<open>DataHeader\<close>, the old entry point is the \<open>hdr\<close>
  member of the new one, with header size 32, magic bytes 0xda and 0x27, format
  identifier "ToCP" and format version 1.0.0.0. In memory the two entry points are the
  same bytes, and the bytes of \<open>hdr\<close> are the leading bytes of the old entry point:
  its address and the address of the old entry point show the same header.
\<close>

theorem entry_point_same_contents:
  "(map diff_path icu_patch
      = [''source/common/udata.cpp'', ''source/common/ucmndata.h'',
         ''source/stubdata/stubdata.c'']
    \<and> map (count_kind Del) icu_patch = [3, 0, 31]
    \<and> map (count_kind Add) icu_patch = [3, 14, 20]
    \<and> list_all hunk_consistent (concat (map diff_hunks icu_patch)))
   \<and> nest (flatten h) = h \<and> flatten (nest f) = f
   \<and> nest (U_ICUDATA_ENTRY_POINT_flat c) = U_ICUDATA_ENTRY_POINT c
   \<and> flat_as_DataHeader (U_ICUDATA_ENTRY_POINT_flat c) = hdr (U_ICUDATA_ENTRY_POINT c)
   \<and> (headerSize (dataHeader (hdr (U_ICUDATA_ENTRY_POINT c))) = 32
      \<and> magic1 (dataHeader (hdr (U_ICUDATA_ENTRY_POINT c))) = 0xda
      \<and> magic2 (dataHeader (hdr (U_ICUDATA_ENTRY_POINT c))) = 0x27
      \<and> dataFormat (info (hdr (U_ICUDATA_ENTRY_POINT c)))
          = map (\<lambda>ch. of_nat (of_char ch)) ''ToCP''
      \<and> formatVersion (info (hdr (U_ICUDATA_ENTRY_POINT c))) = [1, 0, 0, 0])
   \<and> c_bytes be (obj_ICU_Data_Header_flat (U_ICUDATA_ENTRY_POINT_flat c))
       = c_bytes be (obj_ICU_Data_Header (U_ICUDATA_ENTRY_POINT c))
   \<and> take (c_size (obj_DataHeader (hdr (U_ICUDATA_ENTRY_POINT c))))
        (c_bytes be (obj_ICU_Data_Header_flat (U_ICUDATA_ENTRY_POINT_flat c)))
       = c_bytes be (obj_DataHeader (hdr (U_ICUDATA_ENTRY_POINT c)))"
proof -
  have n: "nest (U_ICUDATA_ENTRY_POINT_flat c) = U_ICUDATA_ENTRY_POINT c"
    by (simp add: nest_def flat_as_DataHeader_def U_ICUDATA_ENTRY_POINT_def
        U_ICUDATA_ENTRY_POINT_flat_def)
  have d: "flat_as_DataHeader (U_ICUDATA_ENTRY_POINT_flat c) = hdr (U_ICUDATA_ENTRY_POINT c)"
    by (simp add: flat_as_DataHeader_def U_ICUDATA_ENTRY_POINT_def
        U_ICUDATA_ENTRY_POINT_flat_def)
  show ?thesis
    using icu_patch_shape nest_flatten [of h] flatten_nest [of f] n d
      entry_point_values [of c] entry_point_bytes [of be c] entry_point_hdr_bytes [of c be]
    by blast
qed

theorem entry_point_same_contents_witness:
  "c_bytes False (obj_ICU_Data_Header_flat (U_ICUDATA_ENTRY_POINT_flat icu_config_le))
     = c_bytes False (obj_ICU_Data_Header (U_ICUDATA_ENTRY_POINT icu_config_le))
   \<and> c_bytes False (obj_DataHeader (hdr (U_ICUDATA_ENTRY_POINT icu_config_le)))
     = map Some [32, 0, 0xda, 0x27, 20, 0, 0, 0, 0, 0, 2, 0, 0x54, 0x6f, 0x43, 0x50,
                 1, 0, 0, 0, 0, 0, 0, 0]
   \<and> take 24 (c_bytes False
                (obj_ICU_Data_Header_flat (U_ICUDATA_ENTRY_POINT_flat icu_config_le)))
     = map Some [32, 0, 0xda, 0x27, 20, 0, 0, 0, 0, 0, 2, 0, 0x54, 0x6f, 0x43, 0x50,
                 1, 0, 0, 0, 0, 0, 0, 0]"
proof -
  note all = entry_point_same_contents [of _ _ icu_config_le False]
  have same: "c_bytes False (obj_ICU_Data_Header_flat (U_ICUDATA_ENTRY_POINT_flat icu_config_le))
     = c_bytes False (obj_ICU_Data_Header (U_ICUDATA_ENTRY_POINT icu_config_le))"
    using all by blast
  have pre: "take (c_size (obj_DataHeader (hdr (U_ICUDATA_ENTRY_POINT icu_config_le))))
        (c_bytes False (obj_ICU_Data_Header_flat (U_ICUDATA_ENTRY_POINT_flat icu_config_le)))
       = c_bytes False (obj_DataHeader (hdr (U_ICUDATA_ENTRY_POINT icu_config_le)))"
    using all by blast
  have sz: "c_size (obj_DataHeader (hdr (U_ICUDATA_ENTRY_POINT icu_config_le))) = 24"
    by (simp add: icu_obj_defs pad_simps icu_config_le_def)
  have bytes: "c_bytes False (obj_DataHeader (hdr (U_ICUDATA_ENTRY_POINT icu_config_le)))
     = map Some [32, 0, 0xda, 0x27, 20, 0, 0, 0, 0, 0, 2, 0, 0x54, 0x6f, 0x43, 0x50,
                 1, 0, 0, 0, 0, 0, 0, 0]"
    by (simp add: icu_obj_defs pad_simps icu_config_le_def)
  from same pre sz bytes show ?thesis by simp
qed

section \<open>Properties of the view tree\<close>

subsection \<open>Positions in a list of children\<close>

lemma index_of_notin: "x \<notin> set xs \<Longrightarrow> index_of x xs = - 1"
  by (induction xs) auto

lemma index_of_ge: "- 1 \<le> index_of x xs"
  by (induction xs) auto

lemma index_of_in: "x \<in> set xs \<Longrightarrow> 0 \<le> index_of x xs"
  by (induction xs) (auto simp: index_of_notin)

lemma index_of_nth:
  "distinct xs \<Longrightarrow> i < length xs \<Longrightarrow> index_of (xs ! i) xs = int i"
proof (induction xs arbitrary: i)
  case Nil
  then show ?case by simp
next
  case (Cons y ys)
  show ?case
  proof (cases i)
    case 0
    then show ?thesis by simp
  next
    case (Suc j)
    with Cons.prems have j: "j < length ys" and d: "distinct ys" and ne: "ys ! j \<noteq> y"
      by auto
    from Cons.IH [OF d j] Suc ne show ?thesis by simp
  qed
qed

lemma index_of_eq:
  "index_of x xs = int i \<Longrightarrow> i < length xs \<and> xs ! i = x"
proof (induction xs arbitrary: i)
  case Nil
  then show ?case by simp
next
  case (Cons y ys)
  show ?case
  proof (cases "x = y")
    case True
    with Cons.prems show ?thesis by simp
  next
    case False
    with Cons.prems have nn: "\<not> index_of x ys < 0" and i: "index_of x ys + 1 = int i"
      by (auto split: if_splits)
    then obtain j where j: "i = Suc j" by (cases i) auto
    with i have "index_of x ys = int j" by simp
    from Cons.IH [OF this] j False show ?thesis by simp
  qed
qed

lemma index_of_iff:
  "distinct xs \<Longrightarrow> (index_of x xs = int i) = (i < length xs \<and> xs ! i = x)"
  using index_of_eq index_of_nth by blast

subsection \<open>The operations keep the tree consistent\<close>

lemma consistent_no_views: "consistent (\<lambda>a. None)"
  by (simp add: consistent_def)

lemma consistent_parent_child:
  "consistent s \<Longrightarrow> s c = Some cc \<Longrightarrow> parent cc = Some p \<Longrightarrow>
   \<exists>pp. s p = Some pp \<and> c \<in> set (children pp)"
  unfolding consistent_def by blast

lemma consistent_child_parent:
  "consistent s \<Longrightarrow> s p = Some pp \<Longrightarrow> c \<in> set (children pp) \<Longrightarrow>
   \<exists>cc. s c = Some cc \<and> parent cc = Some p"
  unfolding consistent_def by blast

lemma consistent_distinct:
  "consistent s \<Longrightarrow> s p = Some pp \<Longrightarrow> distinct (children pp)"
  unfolding consistent_def by blast

lemma consistent_rank:
  "consistent s \<Longrightarrow>
   \<exists>d :: nat \<Rightarrow> nat. \<forall>c cc p. s c = Some cc \<longrightarrow> parent cc = Some p \<longrightarrow> d p < d c"
  unfolding consistent_def by blast

lemma consistentI:
  assumes "\<And>c cc p. s c = Some cc \<Longrightarrow> parent cc = Some p \<Longrightarrow>
             \<exists>pp. s p = Some pp \<and> c \<in> set (children pp)"
    and "\<And>p pp c. s p = Some pp \<Longrightarrow> c \<in> set (children pp) \<Longrightarrow>
             \<exists>cc. s c = Some cc \<and> parent cc = Some p"
    and "\<And>p pp. s p = Some pp \<Longrightarrow> distinct (children pp)"
    and "\<And>c cc p. s c = Some cc \<Longrightarrow> parent cc = Some p \<Longrightarrow> (d :: nat \<Rightarrow> nat) p < d c"
  shows "consistent s"
  unfolding consistent_def using assms by blast

lemma consistent_new_View:
  assumes "consistent s" and "new_View s a b = Some s'"
  shows "consistent s'"
proof -
  from assms(2) have fresh: "s a = None"
    and s': "s' = s(a \<mapsto> \<lparr> parent = None, children = [], bounds = b \<rparr>)"
    by (auto simp: new_View_def split: if_splits)
  from consistent_rank [OF assms(1)] obtain d :: "nat \<Rightarrow> nat" where
    d: "\<And>c cc p. s c = Some cc \<Longrightarrow> parent cc = Some p \<Longrightarrow> d p < d c" by blast
  show ?thesis
  proof (rule consistentI [where d = d])
    fix c cc p assume "s' c = Some cc" "parent cc = Some p"
    with s' have c: "s c = Some cc" and "c \<noteq> a" by (auto split: if_splits)
    from consistent_parent_child [OF assms(1) c \<open>parent cc = Some p\<close>] fresh s'
    show "\<exists>pp. s' p = Some pp \<and> c \<in> set (children pp)" by auto
    from d c \<open>parent cc = Some p\<close> show "d p < d c" by blast
  next
    fix p pp c assume "s' p = Some pp" "c \<in> set (children pp)"
    with s' have p: "s p = Some pp" by (auto split: if_splits)
    from consistent_child_parent [OF assms(1) p \<open>c \<in> set (children pp)\<close>] fresh s'
    show "\<exists>cc. s' c = Some cc \<and> parent cc = Some p" by auto
  next
    fix p pp assume "s' p = Some pp"
    with s' consistent_distinct [OF assms(1)] show "distinct (children pp)"
      by (auto split: if_splits)
  qed
qed


lemma set_insert_at: "set (take k xs @ [c] @ drop k xs) = insert c (set xs)"
proof -
  have "set (take k xs) \<union> set (drop k xs) = set xs"
    by (metis append_take_drop_id set_append)
  then show ?thesis by auto
qed

lemma distinct_insert_at:
  assumes "distinct xs" and "c \<notin> set xs"
  shows "distinct (take k xs @ [c] @ drop k xs)"
proof -
  from assms(1) have "distinct (take k xs @ drop k xs)"
    by (simp only: append_take_drop_id)
  then have "distinct (take k xs)" "distinct (drop k xs)"
    "set (take k xs) \<inter> set (drop k xs) = {}"
    by (simp_all only: distinct_append)
  moreover from assms(2) have "c \<notin> set (take k xs)" "c \<notin> set (drop k xs)"
    by (auto dest: in_set_takeD in_set_dropD)
  ultimately show ?thesis by auto
qed

lemma consistent_ReorderChildView:
  assumes "consistent s" and "ReorderChildView s v c i = Some s'"
  shows "consistent s'"
proof -
  from assms(2) obtain vv where v: "s v = Some vv" and cin: "c \<in> set (children vv)"
    by (auto simp: ReorderChildView_def split: option.splits if_splits)
  from consistent_distinct [OF assms(1) v] have dist: "distinct (children vv)" .
  from assms(2) v cin obtain cs where
    s': "s' = s \<or> s' = s(v \<mapsto> vv\<lparr>children := cs\<rparr>)"
    and cs: "set cs = set (children vv)" "distinct cs"
  proof -
    let ?rest = "removeAll c (children vv)"
    let ?n = "int (length (children vv))"
    let ?k = "nat (if i < 0 then ?n - 1 else i)"
    let ?cs = "take ?k ?rest @ [c] @ drop ?k ?rest"
    have a: "set ?cs = set (children vv)"
      using cin by (simp only: set_insert_at) auto
    have b: "distinct ?cs"
      using dist by (intro distinct_insert_at) (simp_all add: distinct_removeAll)
    from assms(2) v cin have "s' = s \<or> s' = s(v \<mapsto> vv\<lparr>children := ?cs\<rparr>)"
      by (auto simp: ReorderChildView_def Let_def split: if_splits)
    with a b that show thesis by blast
  qed
  from consistent_rank [OF assms(1)] obtain d :: "nat \<Rightarrow> nat" where
    d: "\<And>c cc p. s c = Some cc \<Longrightarrow> parent cc = Some p \<Longrightarrow> d p < d c" by blast
  from s' show ?thesis
  proof
    assume "s' = s" with assms(1) show ?thesis by simp
  next
    assume s': "s' = s(v \<mapsto> vv\<lparr>children := cs\<rparr>)"
    show ?thesis
    proof (rule consistentI [where d = d])
      fix x xx p assume x: "s' x = Some xx" and px: "parent xx = Some p"
      from x s' v obtain xx0 where x0: "s x = Some xx0" and p0: "parent xx0 = parent xx"
        by (cases "x = v") auto
      from consistent_parent_child [OF assms(1) x0] p0 px
      obtain pp where pp: "s p = Some pp" "x \<in> set (children pp)" by auto
      with s' v cs show "\<exists>pp. s' p = Some pp \<and> x \<in> set (children pp)"
        by (cases "p = v") auto
      from d x0 p0 px show "d p < d x" by simp
    next
      fix p pp x assume p: "s' p = Some pp" and xin: "x \<in> set (children pp)"
      from p xin s' v cs obtain pp0 where pp0: "s p = Some pp0" "x \<in> set (children pp0)"
        by (cases "p = v") auto
      from consistent_child_parent [OF assms(1) pp0]
      obtain xx where xx: "s x = Some xx" "parent xx = Some p" by blast
      with s' v show "\<exists>cc. s' x = Some cc \<and> parent cc = Some p"
        by (cases "x = v") auto
    next
      fix p pp assume "s' p = Some pp"
      with s' cs consistent_distinct [OF assms(1)] show "distinct (children pp)"
        by (cases "p = v") auto
    qed
  qed
qed

lemma fold_orphan:
  "fold orphan cs s q =
     map_option (\<lambda>qq. if q \<in> set cs then qq\<lparr>parent := None\<rparr> else qq) (s q)"
proof (induction cs arbitrary: s)
  case Nil
  show ?case by (cases "s q") simp_all
next
  case (Cons c cs)
  have "fold orphan (c # cs) s q = fold orphan cs (orphan c s) q" by simp
  also have "\<dots> = map_option (\<lambda>qq. if q \<in> set cs then qq\<lparr>parent := None\<rparr> else qq)
                       (orphan c s q)"
    by (rule Cons.IH)
  also have "\<dots> = map_option (\<lambda>qq. if q \<in> set (c # cs) then qq\<lparr>parent := None\<rparr> else qq)
                       (s q)"
    by (cases "s q"; cases "s c") (auto simp: orphan_def)
  finally show ?case .
qed

lemma consistent_RemoveAllChildViews:
  assumes "consistent s" and "RemoveAllChildViews s v = Some s'"
  shows "consistent s'"
proof -
  from assms(2) obtain vv where v: "s v = Some vv"
    by (auto simp: RemoveAllChildViews_def split: option.splits)
  let ?cs = "children vv"
  have s': "s' q = (if q = v
                    then Some ((if v \<in> set ?cs then vv\<lparr>parent := None\<rparr> else vv)
                                \<lparr>children := []\<rparr>)
                    else map_option (\<lambda>qq. if q \<in> set ?cs then qq\<lparr>parent := None\<rparr> else qq)
                           (s q))" for q
    using assms(2) v by (auto simp: RemoveAllChildViews_def fold_orphan split: option.splits)
  from consistent_rank [OF assms(1)] obtain d :: "nat \<Rightarrow> nat" where
    d: "\<And>c cc p. s c = Some cc \<Longrightarrow> parent cc = Some p \<Longrightarrow> d p < d c" by blast
  have old_parent: "\<exists>xx0. s x = Some xx0 \<and> parent xx0 = Some p \<and> x \<notin> set ?cs"
    if x: "s' x = Some xx" and px: "parent xx = Some p" for x xx p
  proof (cases "x \<in> set ?cs")
    case True
    with x s' [of x] v have "parent xx = None" by (cases "x = v") auto
    with px show ?thesis by simp
  next
    case False
    with x s' [of x] v px show ?thesis by (cases "x = v") auto
  qed
  show ?thesis
  proof (rule consistentI [where d = d])
    fix x xx p assume x: "s' x = Some xx" and px: "parent xx = Some p"
    from old_parent [OF x px] obtain xx0 where
      x0: "s x = Some xx0" "parent xx0 = Some p" "x \<notin> set ?cs" by blast
    from consistent_parent_child [OF assms(1) x0(1,2)]
    obtain pp where pp: "s p = Some pp" "x \<in> set (children pp)" by blast
    with x0(3) v have "p \<noteq> v" by auto
    with pp s' [of p] show "\<exists>pp. s' p = Some pp \<and> x \<in> set (children pp)" by auto
    from d x0 show "d p < d x" by blast
  next
    fix p pp x assume p: "s' p = Some pp" and xin: "x \<in> set (children pp)"
    from p xin s' [of p] have pv: "p \<noteq> v" by (auto split: if_splits)
    with p xin s' [of p] obtain pp0 where pp0: "s p = Some pp0" "x \<in> set (children pp0)"
      by (auto split: if_splits)
    from consistent_child_parent [OF assms(1) pp0]
    obtain xx where xx: "s x = Some xx" "parent xx = Some p" by blast
    have "x \<notin> set ?cs"
    proof
      assume "x \<in> set ?cs"
      from consistent_child_parent [OF assms(1) v this] xx pv show False by auto
    qed
    then show "\<exists>cc. s' x = Some cc \<and> parent cc = Some p"
      using xx s' [of x] v by (cases "x = v") auto
  next
    fix p pp assume "s' p = Some pp"
    with s' [of p] consistent_distinct [OF assms(1), of p] show "distinct (children pp)"
      by (cases "p = v"; cases "s p") (auto split: if_splits)
  qed
qed


lemma Contains_self: "Contains s v (Some v) = Some True"
  by (simp add: Contains.simps)

lemma Contains_null: "Contains s v None = Some False"
  by (simp add: Contains.simps)

lemma Contains_step:
  "x \<noteq> v \<Longrightarrow> s x = Some xx \<Longrightarrow> Contains s v (Some x) = Contains s v (parent xx)"
  by (subst Contains.simps) simp

lemma AddChildView_result:
  assumes "consistent s" and "AddChildView s v c = Some s'"
  shows "s' q =
     map_option
       (\<lambda>qq. qq\<lparr>parent := (if q = c then Some v else parent qq),
                children := removeAll c (children qq) @ (if q = v then [c] else [])\<rparr>)
       (s q)"
proof -
  from assms(2) obtain v0 c0 where v: "s v = Some v0" and c: "s c = Some c0"
    and nc: "Contains s c (Some v) = Some False"
    by (auto simp: AddChildView_def split: option.splits if_splits)
  from nc have vc: "v \<noteq> c" by (auto simp: Contains_self)
  have only_parent: "parent c0 = Some q" if "s q = Some qq" "c \<in> set (children qq)" for q qq
    using consistent_child_parent [OF assms(1) that] c by auto
  show ?thesis
  proof (cases "parent c0")
    case None
    have same: "removeAll c (children qq) = children qq" if "s q = Some qq" for q qq
    proof -
      from only_parent [OF that] None have "c \<notin> set (children qq)" by auto
      then show ?thesis by (rule removeAll_id)
    qed
    from assms(2) v c nc None
    have "s' = s(c \<mapsto> c0\<lparr>parent := Some v\<rparr>, v \<mapsto> v0\<lparr>children := children v0 @ [c]\<rparr>)"
      by (simp add: AddChildView_def)
    with v c vc same [of q] show ?thesis
      by (cases "s q") (auto simp: same [OF v] same [OF c])
  next
    case (Some p)
    from consistent_parent_child [OF assms(1) c Some]
    obtain pp where p: "s p = Some pp" "c \<in> set (children pp)" by blast
    have same: "removeAll c (children qq) = children qq" if "s q = Some qq" "q \<noteq> p" for q qq
    proof -
      from only_parent [OF that(1)] Some that(2) have "c \<notin> set (children qq)" by auto
      then show ?thesis by (rule removeAll_id)
    qed
    have pc: "p \<noteq> c"
    proof
      assume "p = c"
      with Some c consistent_rank [OF assms(1)] show False by force
    qed
    let ?s1 = "s(p \<mapsto> pp\<lparr>children := removeAll c (children pp)\<rparr>)"
    from v obtain v1 where v1: "?s1 v = Some v1"
      and v1c: "children v1 = removeAll c (children v0)" and v1p: "parent v1 = parent v0"
      and v1b: "bounds v1 = bounds v0"
      using p same [OF v] by (cases "v = p") auto
    from assms(2) v c nc Some p v1
    have "s' = ?s1(c \<mapsto> c0\<lparr>parent := Some v\<rparr>, v \<mapsto> v1\<lparr>children := children v1 @ [c]\<rparr>)"
      by (simp add: AddChildView_def unlink_child_def)
    with v c vc pc p v1 v1c v1p v1b same [of q] same [OF c] show ?thesis
      by (cases "s q"; cases "q = p") (auto simp: )
  qed
qed

lemma consistent_AddChildView:
  assumes "consistent s" and "AddChildView s v c = Some s'"
  shows "consistent s'"
proof -
  from assms(2) obtain v0 c0 where v: "s v = Some v0" and c: "s c = Some c0"
    and nc: "Contains s c (Some v) = Some False"
    by (auto simp: AddChildView_def split: option.splits if_splits)
  from nc have vc: "v \<noteq> c" by (auto simp: Contains_self)
  note s' = AddChildView_result [OF assms]
  from consistent_rank [OF assms(1)] obtain d :: "nat \<Rightarrow> nat" where
    d: "\<And>c cc p. s c = Some cc \<Longrightarrow> parent cc = Some p \<Longrightarrow> d p < d c" by blast
  let ?d = "\<lambda>x. if Contains s c (Some x) = Some True then d x + d v + 1 else d x"
  show ?thesis
  proof (rule consistentI [where d = ?d])
    fix x xx p assume x: "s' x = Some xx" and px: "parent xx = Some p"
    from x s' [of x] obtain xx0 where x0: "s x = Some xx0"
      and pxx: "parent xx = (if x = c then Some v else parent xx0)"
      by (cases "s x") auto
    show "\<exists>pp. s' p = Some pp \<and> x \<in> set (children pp)"
    proof (cases "x = c")
      case True
      with pxx px have "p = v" by simp
      with True v s' [of v] show ?thesis by auto
    next
      case False
      with pxx px have "parent xx0 = Some p" by simp
      from consistent_parent_child [OF assms(1) x0 this]
      obtain pp where "s p = Some pp" "x \<in> set (children pp)" by blast
      with False s' [of p] show ?thesis by auto
    qed
    show "?d p < ?d x"
    proof (cases "x = c")
      case True
      with pxx px have "p = v" by simp
      with True nc show ?thesis by (simp add: Contains_self)
    next
      case False
      with pxx px have p0: "parent xx0 = Some p" by simp
      from False x0 p0 have "Contains s c (Some x) = Contains s c (Some p)"
        by (simp add: Contains_step)
      with d [OF x0 p0] show ?thesis by simp
    qed
  next
    fix p pp x assume p: "s' p = Some pp" and xin: "x \<in> set (children pp)"
    from p s' [of p] obtain pp0 where pp0: "s p = Some pp0"
      and cpp: "children pp = removeAll c (children pp0) @ (if p = v then [c] else [])"
      by (cases "s p") auto
    show "\<exists>cc. s' x = Some cc \<and> parent cc = Some p"
    proof (cases "x = c")
      case True
      with xin cpp have "p = v" by (auto split: if_splits)
      with True c s' [of c] show ?thesis by auto
    next
      case False
      with xin cpp have "x \<in> set (children pp0)" by (auto split: if_splits)
      from consistent_child_parent [OF assms(1) pp0 this]
      obtain xx where "s x = Some xx" "parent xx = Some p" by blast
      with False s' [of x] show ?thesis by auto
    qed
  next
    fix p pp assume p: "s' p = Some pp"
    from p s' [of p] obtain pp0 where pp0: "s p = Some pp0"
      and cpp: "children pp = removeAll c (children pp0) @ (if p = v then [c] else [])"
      by (cases "s p") auto
    from consistent_distinct [OF assms(1) pp0] cpp show "distinct (children pp)"
      by (auto simp: distinct_removeAll)
  qed
qed

lemma view_trees_consistent: "view_trees s \<Longrightarrow> consistent s"
proof (induction rule: view_trees.induct)
  case no_views
  show ?case by (rule consistent_no_views)
next
  case (created s a b s')
  then show ?case by (blast intro: consistent_new_View)
next
  case (added s v c s')
  then show ?case by (blast intro: consistent_AddChildView)
next
  case (reordered s v c i s')
  then show ?case by (blast intro: consistent_ReorderChildView)
next
  case (emptied s v s')
  then show ?case by (blast intro: consistent_RemoveAllChildViews)
qed


subsection \<open>What a consistent tree answers\<close>

lemma descendant_has_parent:
  "descendant s v w \<Longrightarrow> \<exists>u uu. s u = Some uu \<and> w \<in> set (children uu)
      \<and> (u = v \<or> descendant s v u)"
  by (induction rule: descendant.induct) blast+

lemma Contains_descendant:
  assumes "consistent s" and "s w = Some ww"
  shows "Contains s v (Some w) = Some (w = v \<or> descendant s v w)"
proof -
  from consistent_rank [OF assms(1)] obtain d :: "nat \<Rightarrow> nat" where
    d: "\<And>c cc p. s c = Some cc \<Longrightarrow> parent cc = Some p \<Longrightarrow> d p < d c" by blast
  from assms(2) show ?thesis
  proof (induction w arbitrary: ww rule: measure_induct_rule [of d])
    case (less w)
    show ?case
    proof (cases "w = v")
      case True
      then show ?thesis by (simp add: Contains_self)
    next
      case False
      with less.prems have step: "Contains s v (Some w) = Contains s v (parent ww)"
        by (simp add: Contains_step)
      show ?thesis
      proof (cases "parent ww")
        case None
        have "\<not> descendant s v w"
        proof
          assume "descendant s v w"
          from descendant_has_parent [OF this]
          obtain u uu where "s u = Some uu" "w \<in> set (children uu)" by blast
          from consistent_child_parent [OF assms(1) this] less.prems None
          show False by auto
        qed
        with step None False show ?thesis by (simp add: Contains_null)
      next
        case (Some p)
        from consistent_parent_child [OF assms(1) less.prems Some]
        obtain pp where pp: "s p = Some pp" "w \<in> set (children pp)" by blast
        from d [OF less.prems Some] have "d p < d w" .
        from less.IH [OF this pp(1)]
        have ih: "Contains s v (Some p) = Some (p = v \<or> descendant s v p)" .
        have "descendant s v w = (p = v \<or> descendant s v p)"
        proof
          assume "descendant s v w"
          from descendant_has_parent [OF this]
          obtain u uu where u: "s u = Some uu" "w \<in> set (children uu)"
            and uv: "u = v \<or> descendant s v u" by blast
          from consistent_child_parent [OF assms(1) u] less.prems Some have "u = p" by auto
          with uv show "p = v \<or> descendant s v p" by simp
        next
          assume "p = v \<or> descendant s v p"
          with pp show "descendant s v w"
            by (auto intro: descendant.child descendant.below)
        qed
        with step Some ih False show ?thesis by simp
      qed
    qed
  qed
qed

lemma not_own_child:
  assumes "consistent s" and "s v = Some vv"
  shows "v \<notin> set (children vv)"
proof
  assume "v \<in> set (children vv)"
  from consistent_child_parent [OF assms this] assms(2) have "parent vv = Some v" by auto
  with consistent_rank [OF assms(1)] assms(2) show False by force
qed

text \<open>
  C6. In every store of views built by creating views and by AddChildView,
  ReorderChildView and RemoveAllChildViews, for every view v: GetIndexOf is -1 for NULL
  and for v itself; a view is among the children of v exactly when v is its parent;
  GetIndexOf(c) = i exactly when c is the child of v at position i; it is -1 for every
  view that is not a child of v, a grandchild among them; Contains is false for NULL
  and, for a view w, true exactly when w is v or a descendant of v.
\<close>

theorem view_tree_consistency:
  assumes "view_trees s" and "s v = Some vv"
  shows "GetIndexOf s v None = Some (- 1)
    \<and> GetIndexOf s v (Some v) = Some (- 1)
    \<and> (\<forall>c. (c \<in> set (children vv)) = (\<exists>cc. s c = Some cc \<and> parent cc = Some v))
    \<and> (\<forall>c i. (GetIndexOf s v (Some c) = Some (int i))
               = (i < length (children vv) \<and> children vv ! i = c))
    \<and> (\<forall>c. c \<notin> set (children vv) \<longrightarrow> GetIndexOf s v (Some c) = Some (- 1))
    \<and> (\<forall>c cc g gg. s c = Some cc \<and> parent cc = Some v \<and> s g = Some gg \<and> parent gg = Some c
          \<longrightarrow> GetIndexOf s v (Some g) = Some (- 1))
    \<and> Contains s v None = Some False
    \<and> (\<forall>w ww. s w = Some ww
          \<longrightarrow> Contains s v (Some w) = Some (w = v \<or> descendant s v w))"
proof -
  from assms(1) have ok: "consistent s" by (rule view_trees_consistent)
  have a: "GetIndexOf s v None = Some (- 1)"
    using assms(2) by (simp add: GetIndexOf_def)
  have b: "GetIndexOf s v (Some v) = Some (- 1)"
    using assms(2) not_own_child [OF ok assms(2)] by (simp add: GetIndexOf_def index_of_notin)
  have c: "(c \<in> set (children vv)) = (\<exists>cc. s c = Some cc \<and> parent cc = Some v)" for c
  proof
    assume "c \<in> set (children vv)"
    from consistent_child_parent [OF ok assms(2) this]
    show "\<exists>cc. s c = Some cc \<and> parent cc = Some v" .
  next
    assume "\<exists>cc. s c = Some cc \<and> parent cc = Some v"
    then obtain cc where "s c = Some cc" "parent cc = Some v" by blast
    from consistent_parent_child [OF ok this] assms(2) show "c \<in> set (children vv)" by auto
  qed
  have d: "(GetIndexOf s v (Some c) = Some (int i))
             = (i < length (children vv) \<and> children vv ! i = c)" for c i
    using assms(2) index_of_iff [OF consistent_distinct [OF ok assms(2)], of c i]
    by (simp add: GetIndexOf_def)
  have e: "c \<notin> set (children vv) \<longrightarrow> GetIndexOf s v (Some c) = Some (- 1)" for c
    using assms(2) by (simp add: GetIndexOf_def index_of_notin)
  have f: "s c = Some cc \<and> parent cc = Some v \<and> s g = Some gg \<and> parent gg = Some c
          \<longrightarrow> GetIndexOf s v (Some g) = Some (- 1)" for c cc g gg
  proof
    assume h: "s c = Some cc \<and> parent cc = Some v \<and> s g = Some gg \<and> parent gg = Some c"
    have "g \<notin> set (children vv)"
    proof
      assume "g \<in> set (children vv)"
      from consistent_child_parent [OF ok assms(2) this] h have "c = v" by auto
      with h consistent_rank [OF ok] show False by force
    qed
    with e show "GetIndexOf s v (Some g) = Some (- 1)" by simp
  qed
  have g: "Contains s v None = Some False" by (rule Contains_null)
  have h: "s w = Some ww \<longrightarrow> Contains s v (Some w) = Some (w = v \<or> descendant s v w)"
    for w ww
    using Contains_descendant [OF ok] by blast
  from a b c d e f g h show ?thesis by blast
qed

lemma run_view_ops_trees:
  "view_trees s \<Longrightarrow> run_view_ops ops s = Some s' \<Longrightarrow> view_trees s'"
proof (induction ops arbitrary: s)
  case Nil
  then show ?case by simp
next
  case (Cons op ops)
  from Cons.prems(2) obtain s1 where s1: "apply_view_op op s = Some s1"
    and rest: "run_view_ops ops s1 = Some s'"
    by (auto split: option.splits)
  from s1 Cons.prems(1) have "view_trees s1"
    by (cases op) (auto intro: view_trees.intros)
  from Cons.IH [OF this rest] show ?case .
qed

lemma GetIndexOf_test_run:
  "run_view_ops GetIndexOf_test_ops (\<lambda>a. None) = Some GetIndexOf_test_tree"
  by (simp add: GetIndexOf_test_ops_def GetIndexOf_test_tree_def new_View_def AddChildView_def
      Contains.simps unlink_child_def fun_eq_iff)

theorem view_tree_consistency_witness:
  "run_view_ops GetIndexOf_test_ops (\<lambda>a. None) = Some GetIndexOf_test_tree
   \<and> GetIndexOf GetIndexOf_test_tree 1 None = Some (- 1)
   \<and> GetIndexOf GetIndexOf_test_tree 1 (Some 1) = Some (- 1)
   \<and> GetIndexOf GetIndexOf_test_tree 1 (Some 2) = Some 0
   \<and> GetIndexOf GetIndexOf_test_tree 1 (Some 3) = Some 1
   \<and> GetIndexOf GetIndexOf_test_tree 1 (Some 4) = Some (- 1)
   \<and> Contains GetIndexOf_test_tree 1 None = Some False
   \<and> Contains GetIndexOf_test_tree 1 (Some 4) = Some True
   \<and> Contains GetIndexOf_test_tree 2 (Some 1) = Some False"
proof -
  let ?s = GetIndexOf_test_tree
  let ?root = "\<lparr> parent = None, children = [2, 3], bounds = (0, 0, 0, 0) \<rparr>"
  have trees: "view_trees ?s"
    using view_trees.no_views GetIndexOf_test_run by (rule run_view_ops_trees)
  have root: "?s 1 = Some ?root" by (simp add: GetIndexOf_test_tree_def)
  note facts = view_tree_consistency [OF trees root]
  from facts have a: "GetIndexOf ?s 1 None = Some (- 1)"
    and b: "GetIndexOf ?s 1 (Some 1) = Some (- 1)"
    and n: "Contains ?s 1 None = Some False"
    by blast+
  from facts have pos: "(GetIndexOf ?s 1 (Some c) = Some (int i))
      = (i < length (children ?root) \<and> children ?root ! i = c)" for c i
    by blast
  from pos [of 2 0] have c: "GetIndexOf ?s 1 (Some 2) = Some 0" by simp
  from pos [of 3 1] have d: "GetIndexOf ?s 1 (Some 3) = Some 1" by simp
  from facts have "4 \<notin> set (children ?root) \<longrightarrow> GetIndexOf ?s 1 (Some 4) = Some (- 1)"
    by blast
  then have e: "GetIndexOf ?s 1 (Some 4) = Some (- 1)" by simp
  have four: "?s 4 = Some \<lparr> parent = Some 2, children = [], bounds = (0, 0, 0, 0) \<rparr>"
    and two: "?s 2 = Some \<lparr> parent = Some 1, children = [4], bounds = (0, 0, 0, 0) \<rparr>"
    by (simp_all add: GetIndexOf_test_tree_def)
  have "descendant ?s 1 2" using root by (rule descendant.child) simp
  then have below: "descendant ?s 1 4" using two by (rule descendant.below) simp
  from facts four have "Contains ?s 1 (Some 4) = Some ((4::nat) = 1 \<or> descendant ?s 1 4)"
    by blast
  with below have f: "Contains ?s 1 (Some 4) = Some True" by simp
  have g: "Contains ?s 2 (Some 1) = Some False"
    by (simp add: Contains.simps GetIndexOf_test_tree_def)
  from GetIndexOf_test_run a b c d e n f g show ?thesis by blast
qed

subsection \<open>The tests of the tree\<close>

lemmas view_op_defs = new_View_def AddChildView_def ReorderChildView_def
  RemoveAllChildViews_def orphan_def unlink_child_def Contains.simps GetIndexOf_def
  child_positions_def Let_def

text \<open>The expectations of the test ReorderChildren (root 1, child 2, foo1 3, foo2 4, foo3 5).\<close>

lemma ReorderChildren_test:
  "child_positions (run_view_ops ReorderChildren_test_ops (\<lambda>a. None)) 2 [3, 4, 5]
     = [Some 0, Some 1, Some 2]
   \<and> child_positions
        (run_view_ops (ReorderChildren_test_ops @ [Reorder_Child 2 4 (- 1)]) (\<lambda>a. None))
        2 [3, 5, 4]
     = [Some 0, Some 1, Some 2]
   \<and> child_positions
        (run_view_ops (ReorderChildren_test_ops
                         @ [Reorder_Child 2 4 (- 1), Reorder_Child 2 3 (- 1)]) (\<lambda>a. None))
        2 [5, 4, 3]
     = [Some 0, Some 1, Some 2]
   \<and> child_positions
        (run_view_ops (ReorderChildren_test_ops
                         @ [Reorder_Child 2 4 (- 1), Reorder_Child 2 3 (- 1),
                            Reorder_Child 2 4 0]) (\<lambda>a. None))
        2 [4, 5, 3]
     = [Some 0, Some 1, Some 2]"
  by (simp add: ReorderChildren_test_ops_def view_op_defs)

text \<open>The expectations of the test Contains (v1 1, v2 2, v3 3).\<close>

lemma Contains_test:
  "(case run_view_ops [New_View 1 (0, 0, 0, 0), New_View 2 (0, 0, 0, 0),
                        New_View 3 (0, 0, 0, 0), Add_Child 1 2, Add_Child 2 3] (\<lambda>a. None) of
      None \<Rightarrow> []
    | Some s \<Rightarrow>
        [Contains s 1 None, Contains s 1 (Some 1), Contains s 1 (Some 2), Contains s 1 (Some 3),
         Contains s 2 None, Contains s 2 (Some 2), Contains s 2 (Some 1), Contains s 2 (Some 3),
         Contains s 3 None, Contains s 3 (Some 3), Contains s 3 (Some 1), Contains s 3 (Some 2)])
   = [Some False, Some True, Some True, Some True,
      Some False, Some True, Some False, Some True,
      Some False, Some True, Some False, Some False]"
  by (simp add: view_op_defs)

section \<open>Properties of located events\<close>

lemmas convert_defs = ConvertPointToView_def ConvertPointToView_in_def GetHierarchyRoot.simps
  ConvertPointForAncestor.simps ConvertPointFromAncestor.simps transform_test_views_def
  to_parent_def from_parent_def TransformPoint_def TransformPointReverse_def SetScale_def
  Transform_identity_def AsPoint_def of_Point_def Let_def

text \<open>The expectations of the test ConvertPointToViewWithTransform.\<close>

lemma ConvertPointToViewWithTransform_test:
  "ConvertPointToView transform_test_views 2 1 (5, 5) = Some (22, 39)
   \<and> ConvertPointToView transform_test_views 1 2 (22, 39) = Some (5, 5)
   \<and> ConvertPointToView transform_test_views 3 1 (5, 5) = Some (133, 211)
   \<and> ConvertPointToView transform_test_views 1 3 (133, 211) = Some (5, 5)
   \<and> ConvertPointToView transform_test_views 3 2 (5, 5) = Some (42, 48)
   \<and> ConvertPointToView transform_test_views 2 3 (42, 48) = Some (5, 5)
   \<and> ConvertPointToView transform_test_views 1 2 (6, 18) = Some (- 1, - 1)"
  by (simp add: convert_defs floor_eq_iff)

lemma GetHierarchyRoot_chain:
  assumes "view_chain s v xs a" and "s a = Some t" and "parent t = None"
  shows "GetHierarchyRoot s v = Some a"
  using assms
proof (induction xs arbitrary: v)
  case Nil
  then show ?case by (simp add: GetHierarchyRoot.simps)
next
  case (Cons x xs)
  from Cons.prems(1) obtain q where sv: "s v = Some x" and pq: "parent x = Some q"
    and rest: "view_chain s q xs a"
    by (auto split: option.splits)
  from Cons.IH [OF rest Cons.prems(2) Cons.prems(3)]
  have "GetHierarchyRoot s q = Some a" .
  with sv pq show ?case by (subst GetHierarchyRoot.simps) simp
qed

lemma ConvertPointForAncestor_chain:
  assumes "view_chain s v xs a"
  shows "ConvertPointForAncestor s a v p = Some (fold to_parent xs p)"
  using assms
proof (induction xs arbitrary: v p)
  case Nil
  then show ?case by (simp add: ConvertPointForAncestor.simps)
next
  case (Cons x xs)
  from Cons.prems obtain q where ne: "v \<noteq> a" and sv: "s v = Some x"
    and pq: "parent x = Some q" and rest: "view_chain s q xs a"
    by (auto split: option.splits)
  from Cons.IH [OF rest]
  have "ConvertPointForAncestor s a q (to_parent x p) = Some (fold to_parent xs (to_parent x p))" .
  with ne sv pq show ?case by (subst ConvertPointForAncestor.simps) simp
qed

lemma ConvertPointFromAncestor_chain:
  assumes "view_chain s v xs a"
  shows "ConvertPointFromAncestor s a v p = Some (foldr from_parent xs p)"
  using assms
proof (induction xs arbitrary: v)
  case Nil
  then show ?case by (simp add: ConvertPointFromAncestor.simps)
next
  case (Cons x xs)
  from Cons.prems obtain q where ne: "v \<noteq> a" and sv: "s v = Some x"
    and pq: "parent x = Some q" and rest: "view_chain s q xs a"
    by (auto split: option.splits)
  from Cons.IH [OF rest]
  have "ConvertPointFromAncestor s a q p = Some (foldr from_parent xs p)" .
  with ne sv pq show ?case by (subst ConvertPointFromAncestor.simps) simp
qed

lemma ConvertPointToView_chains:
  assumes "view_chain s source ups top_view" and "view_chain s target downs top_view"
    and "s top_view = Some t" and "parent t = None" and "source \<noteq> target"
  shows "ConvertPointToView s source target p
           = Some (AsPoint (foldr from_parent downs
                     (of_Point (AsPoint (fold to_parent ups (of_Point p))))))"
  using GetHierarchyRoot_chain [OF assms(2) assms(3) assms(4)]
    ConvertPointForAncestor_chain [OF assms(1), of "of_Point p"]
    ConvertPointFromAncestor_chain [OF assms(2),
      of "of_Point (AsPoint (fold to_parent ups (of_Point p)))"]
    assms(5)
  by (simp add: ConvertPointToView_def)

text \<open>What one step of the way does to a point: the view's transform, then the offset of
  its origin; and the step back undoes it when the transform can be inverted.\<close>

lemma to_parent_point:
  "to_parent v (px, py)
     = (m_xx (view_transform v) * px + m_xy (view_transform v) * py + m_tx (view_transform v)
          + of_int (fst (bounds v)),
        m_yx (view_transform v) * px + m_yy (view_transform v) * py + m_ty (view_transform v)
          + of_int (fst (snd (bounds v))))"
  by (cases "bounds v") (simp add: to_parent_def TransformPoint_def)

lemma from_parent_to_parent:
  assumes "m_xx (view_transform v) * m_yy (view_transform v)
             - m_xy (view_transform v) * m_yx (view_transform v) \<noteq> 0"
  shows "from_parent v (to_parent v p) = p"
proof -
  obtain x y w h where b: "bounds v = (x, y, w, h)" by (cases "bounds v") auto
  obtain px py where p: "p = (px, py)" by (cases p) auto
  let ?t = "view_transform v"
  let ?d = "m_xx ?t * m_yy ?t - m_xy ?t * m_yx ?t"
  have 1: "(m_yy ?t * (m_xx ?t * px + m_xy ?t * py) - m_xy ?t * (m_yx ?t * px + m_yy ?t * py)) / ?d = px"
    using assms by (simp add: field_simps)
  have 2: "(m_xx ?t * (m_yx ?t * px + m_yy ?t * py) - m_yx ?t * (m_xx ?t * px + m_xy ?t * py)) / ?d = py"
    using assms by (simp add: field_simps)
  from assms 1 2 show ?thesis
    by (simp add: b p from_parent_def to_parent_def TransformPoint_def TransformPointReverse_def
        Let_def)
qed

text \<open>
  C5. Let source and target be two different views of one hierarchy: ups is the way from
  source up to the root of the hierarchy, downs the way from target up to the same root.
  Constructing a located event, or a mouse event, from an event e and the pair
  (source, target) gives an event with the type and the flags of e. Its location is the
  location of e taken through the transform and the offset of every view of ups, from
  source upwards, rounded down to whole pixels, then taken back through the offset and
  the transform of every view of downs, from the root's child down to target, and rounded
  down again. With source = target the location is that of e.
\<close>

theorem LocatedEvent_convert_location:
  assumes "view_chain s source ups top_view" and "view_chain s target downs top_view"
    and "s top_view = Some t" and "parent t = None"
  shows "LocatedEvent_convert (ConvertPointToView_in s) e (Some source) (Some target)
     = Inr \<lparr> event_type = event_type e, event_flags = event_flags e,
             location =
               (if source = target then location e
                else AsPoint (foldr from_parent downs
                       (of_Point (AsPoint (fold to_parent ups (of_Point (location e))))))) \<rparr>
   \<and> MouseEvent_convert (ConvertPointToView_in s) e (Some source) (Some target)
     = Inr \<lparr> event_type = event_type e, event_flags = event_flags e,
             location =
               (if source = target then location e
                else AsPoint (foldr from_parent downs
                       (of_Point (AsPoint (fold to_parent ups (of_Point (location e))))))) \<rparr>"
proof (cases "source = target")
  case True
  then show ?thesis
    by (simp add: LocatedEvent_convert_def MouseEvent_convert_def Event_new_def
        ConvertPointToView_in_def ConvertPointToView_def)
next
  case False
  from ConvertPointToView_chains [OF assms False, of "location e"] False
  show ?thesis
    by (simp add: LocatedEvent_convert_def MouseEvent_convert_def Event_new_def
        ConvertPointToView_in_def)
qed

theorem LocatedEvent_convert_location_witness:
  "view_chain transform_test_views 3 [view_3, view_2] 1
   \<and> view_chain transform_test_views 2 [view_2] 1
   \<and> fold to_parent [view_3, view_2] (5, 5) = (133, 211)
   \<and> foldr from_parent [view_2] (133, 211) = (42, 48)
   \<and> LocatedEvent_convert (ConvertPointToView_in transform_test_views)
       (LocatedEvent_new 1 (5, 5) 16) (Some 3) (Some 2)
     = Inr \<lparr> event_type = 1, event_flags = 16, location = (42, 48) \<rparr>
   \<and> MouseEvent_convert (ConvertPointToView_in transform_test_views)
       (LocatedEvent_new 1 (6, 18) 16) (Some 1) (Some 2)
     = Inr \<lparr> event_type = 1, event_flags = 16, location = (- 1, - 1) \<rparr>"
proof -
  let ?s = transform_test_views
  let ?t = "\<lparr> parent = None, children = [2], bounds = (0, 0, 1000, 1000),
              view_transform = Transform_identity \<rparr>"
  have c3: "view_chain ?s 3 [view_3, view_2] 1" and c2: "view_chain ?s 2 [view_2] 1"
    and c1: "view_chain ?s 1 [] 1"
    by (simp_all add: transform_test_views_def view_2_def view_3_def)
  have top: "?s 1 = Some ?t" and par: "parent ?t = None"
    by (simp_all add: transform_test_views_def)
  have up: "fold to_parent [view_3, view_2] (5, 5) = (133, 211)"
    and down: "foldr from_parent [view_2] (133, 211) = (42, 48)"
    and down': "foldr from_parent [view_2] (6, 18) = (- (1 / 3), - (1 / 4))"
    by (simp_all add: view_2_def view_3_def to_parent_def from_parent_def TransformPoint_def
        TransformPointReverse_def SetScale_def Transform_identity_def Let_def)
  from LocatedEvent_convert_location [OF c3 c2 top par, of "LocatedEvent_new 1 (5, 5) 16"]
    LocatedEvent_convert_location [OF c1 c2 top par, of "LocatedEvent_new 1 (6, 18) 16"]
    c3 c2 up down down'
  show ?thesis
    by (simp add: LocatedEvent_new_def AsPoint_def of_Point_def floor_eq_iff)
qed


section \<open>Properties of the bounds of a view\<close>

text \<open>
  C7. After SetBoundsRect(new\_rect) on a view whose bounds differ from new\_rect, the
  view's OnBoundsChanged has been called once, on the view with its bounds already set
  to new\_rect, with the previous bounds as argument. For the view of the tests, whose
  OnBoundsChanged records what it sees: bounds() is new\_rect, did\_change\_bounds\_ is
  true and the bounds it saw are new\_rect.
\<close>

theorem SetBoundsRect_notifies:
  assumes "new_rect \<noteq> bounds v" and "new_rect \<noteq> bounds t"
  shows "SetBoundsRect OnBoundsChanged new_rect v
           = OnBoundsChanged (bounds v) (v\<lparr>bounds := new_rect\<rparr>)
    \<and> bounds (SetBoundsRect TestView_OnBoundsChanged new_rect t) = new_rect
    \<and> did_change_bounds (SetBoundsRect TestView_OnBoundsChanged new_rect t)
    \<and> new_bounds (SetBoundsRect TestView_OnBoundsChanged new_rect t) = new_rect"
  using assms by (simp add: SetBoundsRect_def TestView_OnBoundsChanged_def)

theorem SetBoundsRect_notifies_witness:
  "(0, 0, 200, 200) \<noteq> bounds TestView_new
   \<and> (100, 100, 250, 250)
       \<noteq> bounds (TestView_Reset
                    (SetBoundsRect TestView_OnBoundsChanged (0, 0, 200, 200) TestView_new))
   \<and> bounds (SetBoundsRect TestView_OnBoundsChanged (100, 100, 250, 250)
               (TestView_Reset
                  (SetBoundsRect TestView_OnBoundsChanged (0, 0, 200, 200) TestView_new)))
       = (100, 100, 250, 250)
   \<and> did_change_bounds
         (SetBoundsRect TestView_OnBoundsChanged (100, 100, 250, 250)
            (TestView_Reset
               (SetBoundsRect TestView_OnBoundsChanged (0, 0, 200, 200) TestView_new)))
   \<and> new_bounds
         (SetBoundsRect TestView_OnBoundsChanged (100, 100, 250, 250)
            (TestView_Reset
               (SetBoundsRect TestView_OnBoundsChanged (0, 0, 200, 200) TestView_new)))
       = (100, 100, 250, 250)"
proof -
  let ?v = "TestView_Reset
              (SetBoundsRect TestView_OnBoundsChanged (0, 0, 200, 200) TestView_new)"
  have first: "(0, 0, 200, 200) \<noteq> bounds TestView_new"
    by (simp add: TestView_new_def)
  have differ: "(100, 100, 250, 250) \<noteq> bounds ?v"
    by (simp add: TestView_new_def TestView_Reset_def SetBoundsRect_def
        TestView_OnBoundsChanged_def)
  from SetBoundsRect_notifies [OF differ differ] first differ show ?thesis by blast
qed

end
